theory Spec2Isabelle
  imports Main
begin

section \<open>JavaScript values used by the server\<close>

text \<open>
  A JavaScript string is a sequence of UTF-16 code units; a code unit is modelled as a
  natural number (below 65536 in every string the program can see). \<open>js\<close> embeds an
  ASCII literal.
\<close>

type_synonym js_string = "nat list"

definition js :: "string \<Rightarrow> js_string" where
  "js s = map of_char s"

text \<open>
  The characters matched by \<^verbatim>\<open>\s\<close> in a regular expression and stripped by
  \<^verbatim>\<open>String.prototype.trim\<close> (and skipped by \<^verbatim>\<open>parseInt\<close>): ECMAScript's WhiteSpace
  and LineTerminator code points.
\<close>

definition isWhiteSpace :: "nat \<Rightarrow> bool" where
  "isWhiteSpace c \<longleftrightarrow>
     c = 9 \<or> c = 10 \<or> c = 11 \<or> c = 12 \<or> c = 13 \<or> c = 32 \<or> c = 160 \<or> c = 5760 \<or>
     (8192 \<le> c \<and> c \<le> 8202) \<or> c = 8232 \<or> c = 8233 \<or> c = 8239 \<or> c = 8287 \<or>
     c = 12288 \<or> c = 65279"

text \<open>\<^verbatim>\<open>s.trim()\<close>\<close>

definition trim :: "js_string \<Rightarrow> js_string" where
  "trim s = rev (dropWhile isWhiteSpace (rev (dropWhile isWhiteSpace s)))"

text \<open>
  \<^verbatim>\<open>s.split(/\s+/)\<close>: the pieces between the maximal runs of whitespace; a run at
  the start or the end of the string leaves an empty piece there, and the empty string
  splits into one empty piece. \<open>cur\<close> is the piece being read, \<open>inws\<close> says that the
  previous character belonged to a separator.
\<close>

fun split_from :: "js_string \<Rightarrow> bool \<Rightarrow> js_string \<Rightarrow> js_string list" where
  "split_from cur inws [] = [cur]"
| "split_from cur inws (c # cs) =
     (if isWhiteSpace c
      then (if inws then split_from cur True cs else cur # split_from [] True cs)
      else split_from (cur @ [c]) False cs)"

definition split_ws :: "js_string \<Rightarrow> js_string list" where
  "split_ws s = split_from [] False s"

text \<open>\<^verbatim>\<open>s.split(',')\<close> and every other split on a single character.\<close>

fun split_on_from :: "nat \<Rightarrow> js_string \<Rightarrow> js_string \<Rightarrow> js_string list" where
  "split_on_from sep cur [] = [cur]"
| "split_on_from sep cur (c # cs) =
     (if c = sep then cur # split_on_from sep [] cs else split_on_from sep (cur @ [c]) cs)"

definition split_on :: "nat \<Rightarrow> js_string \<Rightarrow> js_string list" where
  "split_on sep s = split_on_from sep [] s"

text \<open>\<^verbatim>\<open>words.join(sep)\<close>\<close>

fun join :: "js_string \<Rightarrow> js_string list \<Rightarrow> js_string" where
  "join sep [] = []"
| "join sep [w] = w"
| "join sep (w # v # ws) = w @ sep @ join sep (v # ws)"

text \<open>
  \<^verbatim>\<open>s.replace(/\s+/g, rep)\<close>: every maximal run of whitespace becomes one copy of
  \<open>rep\<close>.
\<close>

fun replace_ws_from :: "js_string \<Rightarrow> bool \<Rightarrow> js_string \<Rightarrow> js_string" where
  "replace_ws_from rep inws [] = []"
| "replace_ws_from rep inws (c # cs) =
     (if isWhiteSpace c
      then (if inws then replace_ws_from rep True cs else rep @ replace_ws_from rep True cs)
      else c # replace_ws_from rep False cs)"

definition replace_ws :: "js_string \<Rightarrow> js_string \<Rightarrow> js_string" where
  "replace_ws rep s = replace_ws_from rep False s"

text \<open>
  Case conversion on Basic Latin and the Latin-1 Supplement (U+0000 to U+00FF), as the
  Unicode case mappings give it: the upper case of a one-letter string (two letters for
  U+00DF, the sharp s; a letter outside the range for U+00B5 and U+00FF) and the lower
  case of a letter. The case conversion of the runtime itself is a parameter (see the
  environment below); these tables say what it does on this range, and serve in the
  examples.
\<close>

definition latin1_upper :: "nat \<Rightarrow> js_string" where
  "latin1_upper c =
     (if 97 \<le> c \<and> c \<le> 122 then [c - 32]
      else if c = 181 then [924]
      else if c = 223 then [83, 83]
      else if (224 \<le> c \<and> c \<le> 246) \<or> (248 \<le> c \<and> c \<le> 254) then [c - 32]
      else if c = 255 then [376]
      else [c])"

definition latin1_lower :: "nat \<Rightarrow> nat" where
  "latin1_lower c =
     (if (65 \<le> c \<and> c \<le> 90) \<or> (192 \<le> c \<and> c \<le> 214) \<or> (216 \<le> c \<and> c \<le> 222)
      then c + 32 else c)"

text \<open>
  Numbers. The server only handles the results of \<^verbatim>\<open>parseInt\<close>: \<^verbatim>\<open>NaN\<close>, a double
  whose value is an integer, or an infinity.
\<close>

datatype number = NaN | Num int | PosInfinity | NegInfinity

definition isDigit :: "nat \<Rightarrow> bool" where
  "isDigit c \<longleftrightarrow> 48 \<le> c \<and> c \<le> 57"

fun digits_value :: "int \<Rightarrow> js_string \<Rightarrow> int" where
  "digits_value acc [] = acc"
| "digits_value acc (c # cs) = digits_value (acc * 10 + int (c - 48)) cs"

text \<open>The decimal notation of an integer.\<close>

fun digits_of :: "nat \<Rightarrow> js_string" where
  "digits_of n = (if n < 10 then [48 + n] else digits_of (n div 10) @ [48 + n mod 10])"

declare digits_of.simps [simp del]

definition decimal :: "int \<Rightarrow> js_string" where
  "decimal i = (if i < 0 then 45 # digits_of (nat (- i)) else digits_of (nat i))"

text \<open>
  The numbers that a template literal prints in plain notation: \<^verbatim>\<open>NaN\<close>, and the
  integers below \<open>10 ^ 21\<close> in absolute value. (From \<open>10 ^ 21\<close> on the text has an
  exponent.)
\<close>

fun plain :: "number \<Rightarrow> bool" where
  "plain NaN = True"
| "plain (Num i) = (\<bar>i\<bar> < 1000000000000000000000)"
| "plain PosInfinity = False"
| "plain NegInfinity = False"

text \<open>
  What a handler can throw: an \<^verbatim>\<open>Error\<close> that carries a \<^verbatim>\<open>status\<close> and a message,
  or a \<^verbatim>\<open>TypeError\<close> of the runtime (for reading a property of \<^verbatim>\<open>undefined\<close>, for
  calling a method that is not there, for a character that may not stand in a header),
  which carries no status.
\<close>

datatype js_error = StatusError nat js_string | TypeError

text \<open>\<^verbatim>\<open>xs.map(f)\<close> for a callback that may throw: the first exception ends the map.\<close>

fun map_throw :: "('a \<Rightarrow> js_error + 'b) \<Rightarrow> 'a list \<Rightarrow> js_error + 'b list" where
  "map_throw f [] = Inr []"
| "map_throw f (x # xs) =
     (case f x of
        Inl e \<Rightarrow> Inl e
      | Inr y \<Rightarrow> (case map_throw f xs of Inl e \<Rightarrow> Inl e | Inr ys \<Rightarrow> Inr (y # ys)))"

section \<open>The environment\<close>

text \<open>
  What the server cannot decide, and what its runtime does where this development does
  not spell it out:
  \<^item> where the cache lives (\<^verbatim>\<open>FONTS_DIR\<close> is \<^verbatim>\<open>path.resolve('D:/fonts-cache')\<close>, which
    depends on the platform and the working directory), and \<^verbatim>\<open>path.join\<close>, which puts
    the platform's separator between two segments and normalizes the result;
  \<^item> \<^verbatim>\<open>toUpperCase\<close> on a string of one code unit, and \<^verbatim>\<open>toLowerCase\<close>;
  \<^item> the double that \<^verbatim>\<open>parseInt\<close> returns for an integer above \<open>2 ^ 53\<close> in absolute
    value (the nearest double, or an infinity), and the text with an exponent that a
    template literal prints for an integer from \<open>10 ^ 21\<close> on;
  \<^item> the answers of the network (\<open>None\<close>: the request fails and \<^verbatim>\<open>axios.get\<close> throws);
    the two style sheet services are indexed by the family and the weight their URL is
    built from, and their answer is a text (a style sheet, which \<^verbatim>\<open>axios\<close> hands over
    as a string);
  \<^item> whether the file system accepts a \<^verbatim>\<open>mkdirSync\<close> or a \<^verbatim>\<open>writeFileSync\<close>. A write
    that fails may still leave a file behind (say a truncated one): \<open>WriteError\<close> tells
    what.
\<close>

type_synonym bytes = "nat list"

datatype write_outcome = WriteOk | WriteError "bytes option"

record env =
  fonts_dir :: js_string
  path_join :: "js_string \<Rightarrow> js_string \<Rightarrow> js_string"
  toUpperCase :: "nat \<Rightarrow> js_string"
  toLowerCase :: "js_string \<Rightarrow> js_string"
  big_number :: "int \<Rightarrow> number"
  big_text :: "int \<Rightarrow> js_string"
  css2_response :: "js_string \<Rightarrow> number \<Rightarrow> js_string option"
  css_response :: "js_string \<Rightarrow> number \<Rightarrow> js_string option"
  asset_response :: "js_string \<Rightarrow> bytes option"
  mkdir_fails :: "js_string \<Rightarrow> bool"
  write_result :: "js_string \<Rightarrow> bytes \<Rightarrow> write_outcome"

text \<open>
  \<^verbatim>\<open>parseInt(s, 10)\<close>: skip leading whitespace, read an optional sign, then the longest
  run of decimal digits; \<^verbatim>\<open>NaN\<close> when that run is empty. Whatever follows the digits is
  ignored. An integer up to \<open>2 ^ 53\<close> in absolute value is a double; a larger one is
  rounded by the runtime.
\<close>

definition parseInt :: "env \<Rightarrow> js_string \<Rightarrow> number" where
  "parseInt e s =
     (let t = dropWhile isWhiteSpace s;
          neg = (t \<noteq> [] \<and> hd t = 45);
          u = (if t \<noteq> [] \<and> (hd t = 45 \<or> hd t = 43) then tl t else t);
          ds = takeWhile isDigit u;
          v = (if neg then - digits_value 0 ds else digits_value 0 ds)
      in if ds = [] then NaN
         else if \<bar>v\<bar> \<le> 9007199254740992 then Num v
         else big_number e v)"

text \<open>The text of a number in a template literal, \<^verbatim>\<open>${weight}\<close>.\<close>

fun numToString :: "env \<Rightarrow> number \<Rightarrow> js_string" where
  "numToString e NaN = js ''NaN''"
| "numToString e (Num i) = (if plain (Num i) then decimal i else big_text e i)"
| "numToString e PosInfinity = js ''Infinity''"
| "numToString e NegInfinity = js ''-Infinity''"

section \<open>Family names\<close>

text \<open>
  \<^verbatim>\<open>word => word[0].toUpperCase() + word.slice(1).toLowerCase()\<close> (app.js, line 183).
  On the empty word \<^verbatim>\<open>word[0]\<close> is \<^verbatim>\<open>undefined\<close> and the call of its
  \<^verbatim>\<open>toUpperCase\<close> throws a TypeError.
\<close>

fun capitalize :: "env \<Rightarrow> js_string \<Rightarrow> js_error + js_string" where
  "capitalize e [] = Inl TypeError"
| "capitalize e (c # cs) = Inr (toUpperCase e c @ toLowerCase e cs)"

text \<open>The normalization of the name parameter (app.js, lines 180 to 184).\<close>

definition normalizeName :: "env \<Rightarrow> js_string \<Rightarrow> js_error + js_string" where
  "normalizeName e name =
     (case map_throw (capitalize e) (split_ws (trim name)) of
        Inl err \<Rightarrow> Inl err
      | Inr ws \<Rightarrow> Inr (join (js '' '') ws))"

section \<open>Query parameters\<close>

text \<open>
  A query parameter as Express hands it over: missing (\<^verbatim>\<open>undefined\<close>), a string, or,
  for a repeated or bracketed parameter, an array or an object. Of an array or object
  the server can only use the conversion to a string (\<^verbatim>\<open>parseInt\<close> converts its
  argument), which \<open>Structured\<close> carries; it has no \<^verbatim>\<open>split\<close> and no \<^verbatim>\<open>trim\<close> that
  could be called, it is not a member of \<^verbatim>\<open>VALID_FORMATS\<close>, and it is truthy.
\<close>

datatype param = Absent | Text js_string | Structured js_string

section \<open>Formats, file names and archive entry names\<close>

text \<open>
  The two members of \<^verbatim>\<open>VALID_FORMATS\<close>. After \<^verbatim>\<open>validateFormat\<close> a format is one of
  these two strings, and the rest of the server only compares it with \<^verbatim>\<open>'woff2'\<close>.
\<close>

datatype format = Woff2 | Ttf

fun format_str :: "format \<Rightarrow> js_string" where
  "format_str Woff2 = js ''woff2''"
| "format_str Ttf = js ''ttf''"

text \<open>
  \<^verbatim>\<open>validateFormat\<close> (app.js, lines 24 to 31).
\<close>

definition validateFormat :: "param \<Rightarrow> js_error + format" where
  "validateFormat fmt =
     (if fmt = Text (js ''woff2'') then Inr Woff2
      else if fmt = Text (js ''ttf'') then Inr Ttf
      else Inl (StatusError 400 (js ''Invalid format. Must be woff2 or ttf.'')))"

text \<open>\<^verbatim>\<open>family.replace(/\s+/g, '-')\<close> (lines 81, 128, 196 and 216).\<close>

definition safeFamily :: "js_string \<Rightarrow> js_string" where
  "safeFamily family = replace_ws (js ''-'') family"

text \<open>The template \<^verbatim>\<open>${safeFamily}-${weight}.${format}\<close> (lines 89, 129 and 217).\<close>

definition fontFilename :: "env \<Rightarrow> js_string \<Rightarrow> number \<Rightarrow> format \<Rightarrow> js_string" where
  "fontFilename e family weight format =
     safeFamily family @ js ''-'' @ numToString e weight @ js ''.'' @ format_str format"

text \<open>The name of an archive entry, \<^verbatim>\<open>${safeFamily}/${filename}\<close> (lines 130 and 218).\<close>

definition entryName :: "env \<Rightarrow> js_string \<Rightarrow> number \<Rightarrow> format \<Rightarrow> js_string" where
  "entryName e family weight format =
     safeFamily family @ js ''/'' @ fontFilename e family weight format"

section \<open>The state of the world\<close>

text \<open>
  What the server changes: the file system, and three logs that record, in order, the
  network requests it sent, the file system operations that write, and the warnings it
  printed with \<^verbatim>\<open>console.warn\<close>.
\<close>

datatype node = Dir | File bytes

datatype request = GetCss2 js_string number | GetCss js_string number | GetAsset js_string

datatype fs_op = MkdirSync js_string | WriteFileSync js_string bytes

text \<open>Why one weight of one family was skipped (the exception the inner \<^verbatim>\<open>catch\<close> caught).\<close>

datatype item_error =
  UriMalformed | ManifestFailed | NoUrlFound | FamilyUndefined | MkdirFailed | DownloadFailed |
  WriteFailed

record world =
  fs :: "js_string \<Rightarrow> node option"
  requests :: "request list"
  fs_ops :: "fs_op list"
  warnings :: "(js_string option \<times> number \<times> item_error) list"

text \<open>The directory of a family and the file of a key (lines 82 and 90).\<close>

definition fontDir :: "env \<Rightarrow> js_string \<Rightarrow> js_string" where
  "fontDir e family = path_join e (fonts_dir e) (safeFamily family)"

definition fontPath :: "env \<Rightarrow> js_string \<Rightarrow> number \<Rightarrow> format \<Rightarrow> js_string" where
  "fontPath e family weight format =
     path_join e (fontDir e family) (fontFilename e family weight format)"

definition existsSync :: "world \<Rightarrow> js_string \<Rightarrow> bool" where
  "existsSync w p \<longleftrightarrow> fs w p \<noteq> None"

definition mkdirSync :: "env \<Rightarrow> js_string \<Rightarrow> world \<Rightarrow> (item_error + unit) \<times> world" where
  "mkdirSync e p w =
     (let w1 = w\<lparr>fs_ops := fs_ops w @ [MkdirSync p]\<rparr>
      in if mkdir_fails e p then (Inl MkdirFailed, w1)
         else (Inr (), w1\<lparr>fs := (fs w1)(p \<mapsto> Dir)\<rparr>))"

definition writeFileSync ::
  "env \<Rightarrow> js_string \<Rightarrow> bytes \<Rightarrow> world \<Rightarrow> (item_error + unit) \<times> world" where
  "writeFileSync e p data w =
     (let w1 = w\<lparr>fs_ops := fs_ops w @ [WriteFileSync p data]\<rparr>
      in case write_result e p data of
           WriteOk \<Rightarrow> (Inr (), w1\<lparr>fs := (fs w1)(p \<mapsto> File data)\<rparr>)
         | WriteError None \<Rightarrow> (Inl WriteFailed, w1)
         | WriteError (Some left) \<Rightarrow> (Inl WriteFailed, w1\<lparr>fs := (fs w1)(p \<mapsto> File left)\<rparr>))"

section \<open>Resolving the URL of a font file\<close>

text \<open>
  The regular expression \<^verbatim>\<open>/url\((https:\/\/fonts\.gstatic\.com\/[^)]+\.woff2)\)/\<close> (line
  60; line 75 has \<^verbatim>\<open>ttf\<close>) tried at the start of \<open>s\<close>: after the literal prefix, the
  characters up to the first closing parenthesis must end with the extension, with at
  least one character before it, and the parenthesis must be there. The captured group
  is the URL.
\<close>

definition match_at :: "js_string \<Rightarrow> js_string \<Rightarrow> js_string option" where
  "match_at ext s =
     (let pre = js ''url(''; host = js ''https://fonts.gstatic.com/'';
          n = length (pre @ host)
      in if take n s = pre @ host
         then (let run = takeWhile (\<lambda>c. c \<noteq> 41) (drop n s);
                   after = dropWhile (\<lambda>c. c \<noteq> 41) (drop n s)
               in if after \<noteq> [] \<and> length ext < length run \<and>
                     drop (length run - length ext) run = ext
                  then Some (host @ run) else None)
         else None)"

text \<open>\<^verbatim>\<open>css.match(regex)\<close>: the leftmost position at which the expression matches.\<close>

fun match_font_url :: "js_string \<Rightarrow> js_string \<Rightarrow> js_string option" where
  "match_font_url ext [] = None"
| "match_font_url ext (c # cs) =
     (case match_at ext (c # cs) of
        Some url \<Rightarrow> Some url
      | None \<Rightarrow> match_font_url ext cs)"

text \<open>
  \<^verbatim>\<open>encodeURIComponent\<close> throws a URIError on a string with a lone surrogate: a code unit
  from U+D800 to U+DBFF that no code unit from U+DC00 to U+DFFF follows, or one of the
  latter that follows no one of the former.
\<close>

fun well_formed :: "js_string \<Rightarrow> bool" where
  "well_formed [] = True"
| "well_formed [c] = (\<not> (55296 \<le> c \<and> c \<le> 57343))"
| "well_formed (c # d # cs) =
     (if 55296 \<le> c \<and> c \<le> 56319 then 56320 \<le> d \<and> d \<le> 57343 \<and> well_formed cs
      else \<not> (56320 \<le> c \<and> c \<le> 57343) \<and> well_formed (d # cs))"

text \<open>
  \<^verbatim>\<open>resolveWoff2Url\<close> (lines 49 to 68) and \<^verbatim>\<open>resolveTtfUrl\<close> (lines 70 to 78). The
  URL is built first, and that fails for a family \<^verbatim>\<open>encodeURIComponent\<close> refuses. The
  request is logged by the family and the weight that \<^verbatim>\<open>encodeURIComponent\<close> and the
  template put into its URL; the answer, when there is one, is the text of a style sheet.
\<close>

definition resolveWoff2Url ::
  "env \<Rightarrow> js_string \<Rightarrow> number \<Rightarrow> world \<Rightarrow> (item_error + js_string) \<times> world" where
  "resolveWoff2Url e family weight w =
     (if \<not> well_formed family then (Inl UriMalformed, w)
      else (let w1 = w\<lparr>requests := requests w @ [GetCss2 family weight]\<rparr>
            in case css2_response e family weight of
                 None \<Rightarrow> (Inl ManifestFailed, w1)
               | Some css \<Rightarrow>
                   (case match_font_url (js ''.woff2'') css of
                      None \<Rightarrow> (Inl NoUrlFound, w1)
                    | Some url \<Rightarrow> (Inr url, w1))))"

definition resolveTtfUrl ::
  "env \<Rightarrow> js_string \<Rightarrow> number \<Rightarrow> world \<Rightarrow> (item_error + js_string) \<times> world" where
  "resolveTtfUrl e family weight w =
     (if \<not> well_formed family then (Inl UriMalformed, w)
      else (let w1 = w\<lparr>requests := requests w @ [GetCss family weight]\<rparr>
            in case css_response e family weight of
                 None \<Rightarrow> (Inl ManifestFailed, w1)
               | Some css \<Rightarrow>
                   (case match_font_url (js ''.ttf'') css of
                      None \<Rightarrow> (Inl NoUrlFound, w1)
                    | Some url \<Rightarrow> (Inr url, w1))))"

section \<open>The cache\<close>

text \<open>
  \<^verbatim>\<open>downloadAndSaveFont\<close> (lines 80 to 100) is an async function with one
  \<^verbatim>\<open>await\<close>: it runs in two pieces, and other requests of the same process may run in
  between. The first piece (lines 81 to 97) makes the directory, looks for the file and,
  when it is missing, sends the request for the font file. The second piece (lines 97 to
  99) receives the answer and writes the file.
\<close>

datatype lookup = Hit js_string | Miss js_string

definition downloadAndSaveFont_begin ::
  "env \<Rightarrow> js_string \<Rightarrow> number \<Rightarrow> js_string \<Rightarrow> format \<Rightarrow> world \<Rightarrow> (item_error + lookup) \<times> world"
  where
  "downloadAndSaveFont_begin e family weight url format w =
     (case (if \<not> existsSync w (fontDir e family) then mkdirSync e (fontDir e family) w
            else (Inr (), w)) of
        (Inl err, w1) \<Rightarrow> (Inl err, w1)
      | (Inr _, w1) \<Rightarrow>
          (let filePath = fontPath e family weight format
           in if existsSync w1 filePath then (Inr (Hit filePath), w1)
              else (Inr (Miss filePath), w1\<lparr>requests := requests w1 @ [GetAsset url]\<rparr>)))"

definition downloadAndSaveFont_finish ::
  "env \<Rightarrow> js_string \<Rightarrow> bytes option \<Rightarrow> world \<Rightarrow> (item_error + js_string) \<times> world" where
  "downloadAndSaveFont_finish e filePath response w =
     (case response of
        None \<Rightarrow> (Inl DownloadFailed, w)
      | Some data \<Rightarrow>
          (case writeFileSync e filePath data w of
             (Inl err, w1) \<Rightarrow> (Inl err, w1)
           | (Inr _, w1) \<Rightarrow> (Inr filePath, w1)))"

definition downloadAndSaveFont ::
  "env \<Rightarrow> js_string \<Rightarrow> number \<Rightarrow> js_string \<Rightarrow> format \<Rightarrow> world \<Rightarrow> (item_error + js_string) \<times> world"
  where
  "downloadAndSaveFont e family weight url format w =
     (case downloadAndSaveFont_begin e family weight url format w of
        (Inl err, w1) \<Rightarrow> (Inl err, w1)
      | (Inr (Hit filePath), w1) \<Rightarrow> (Inr filePath, w1)
      | (Inr (Miss filePath), w1) \<Rightarrow>
          downloadAndSaveFont_finish e filePath (asset_response e url) w1)"


section \<open>Building the archive\<close>

text \<open>
  The archive of the \<^verbatim>\<open>archiver\<close> package, as far as the server drives it: the
  entries queued by \<^verbatim>\<open>archive.file(filePath, { name })\<close>, in order, each a path on disk
  and a name in the archive, and whether \<^verbatim>\<open>archive.finalize()\<close> has run. The bytes of
  the ZIP file are the package's business: a finalized archive without entries stands
  for its empty ZIP file.
\<close>

record archive =
  entries :: "(js_string \<times> js_string) list"
  finalized :: bool

definition new_archive :: archive where
  "new_archive = \<lparr>entries = [], finalized = False\<rparr>"

text \<open>
  What a handler answers: the JSON body \<^verbatim>\<open>{ error: message }\<close> with a status (the
  message of a TypeError is the runtime's, \<open>None\<close> here), or status 200 with the
  \<^verbatim>\<open>Content-Disposition\<close> file name and the archive piped into the response.
\<close>

datatype response = ErrorJson nat "js_string option" | ZipStream js_string archive

text \<open>
  The body of the inner \<^verbatim>\<open>try\<close> (lines 120 to 130, and again lines 208 to 218): resolve
  the URL, fetch the file into the cache, and hand back the arguments of
  \<^verbatim>\<open>archive.file\<close>. \<open>Inl\<close> is the exception that reaches the \<^verbatim>\<open>catch\<close>.
\<close>

definition fetchWeight ::
  "env \<Rightarrow> js_string \<Rightarrow> format \<Rightarrow> number \<Rightarrow> world \<Rightarrow>
   (item_error + js_string \<times> js_string) \<times> world" where
  "fetchWeight e family format weight w =
     (case (if format = Woff2 then resolveWoff2Url e family weight w
            else resolveTtfUrl e family weight w) of
        (Inl err, w1) \<Rightarrow> (Inl err, w1)
      | (Inr url, w1) \<Rightarrow>
          (case downloadAndSaveFont e family weight url format w1 of
             (Inl err, w2) \<Rightarrow> (Inl err, w2)
           | (Inr filePath, w2) \<Rightarrow> (Inr (filePath, entryName e family weight format), w2)))"

text \<open>
  One round of the loop over the weights (lines 118 to 134, lines 206 to 222): the
  \<^verbatim>\<open>try\<close> and its \<^verbatim>\<open>catch\<close>, which prints a warning and goes on.
\<close>

definition addWeight ::
  "env \<Rightarrow> js_string \<Rightarrow> format \<Rightarrow> archive \<times> world \<Rightarrow> number \<Rightarrow> archive \<times> world" where
  "addWeight e family format aw weight =
     (case fetchWeight e family format weight (snd aw) of
        (Inr entry, w1) \<Rightarrow> ((fst aw)\<lparr>entries := entries (fst aw) @ [entry]\<rparr>, w1)
      | (Inl err, w1) \<Rightarrow>
          (fst aw, w1\<lparr>warnings := warnings w1 @ [(Some family, weight, err)]\<rparr>))"

definition addWeights ::
  "env \<Rightarrow> js_string \<Rightarrow> format \<Rightarrow> number list \<Rightarrow> archive \<times> world \<Rightarrow> archive \<times> world" where
  "addWeights e family format weights aw = foldl (addWeight e family format) aw weights"

text \<open>
  The same round for a family that is \<^verbatim>\<open>undefined\<close> (an element read past the end of
  the catalog): the URL is built with the text \<^verbatim>\<open>undefined\<close> and requested, and if
  that yields a URL, \<^verbatim>\<open>family.replace\<close> throws in \<^verbatim>\<open>downloadAndSaveFont\<close>. Either
  way the \<^verbatim>\<open>catch\<close> prints a warning.
\<close>

definition addWeightUndefined ::
  "env \<Rightarrow> format \<Rightarrow> archive \<times> world \<Rightarrow> number \<Rightarrow> archive \<times> world" where
  "addWeightUndefined e format aw weight =
     (case (if format = Woff2 then resolveWoff2Url e (js ''undefined'') weight (snd aw)
            else resolveTtfUrl e (js ''undefined'') weight (snd aw)) of
        (Inl err, w1) \<Rightarrow> (fst aw, w1\<lparr>warnings := warnings w1 @ [(None, weight, err)]\<rparr>)
      | (Inr url, w1) \<Rightarrow>
          (fst aw, w1\<lparr>warnings := warnings w1 @ [(None, weight, FamilyUndefined)]\<rparr>))"

text \<open>
  One round of the loop over the selection (lines 116 to 138). The outer \<^verbatim>\<open>try\<close> of
  lines 117 and 135 has nothing to catch: all that can throw in its body stands inside
  the inner \<^verbatim>\<open>try\<close>.
\<close>

definition addFamily ::
  "env \<Rightarrow> format \<Rightarrow> number list \<Rightarrow> archive \<times> world \<Rightarrow> js_string option \<Rightarrow> archive \<times> world"
  where
  "addFamily e format weights aw family =
     (case family of
        Some f \<Rightarrow> addWeights e f format weights aw
      | None \<Rightarrow> foldl (addWeightUndefined e format) aw weights)"

text \<open>
  \<^verbatim>\<open>streamFontsAsZip\<close> (lines 102 to 141). \<open>now\<close> is the value of
  \<^verbatim>\<open>Date.now()\<close>, an integer of at most 16 digits, which a template literal prints in
  plain notation. The header of line 104 holds nothing a response header may not hold.
\<close>

definition streamFontsAsZip ::
  "env \<Rightarrow> int \<Rightarrow> js_string option list \<Rightarrow> format \<Rightarrow> number list \<Rightarrow> world \<Rightarrow> response \<times> world"
  where
  "streamFontsAsZip e now selection format weights w =
     (let aw = foldl (addFamily e format weights) (new_archive, w) selection
      in (ZipStream (js ''fonts-'' @ format_str format @ js ''-'' @ decimal now @ js ''.zip'')
            ((fst aw)\<lparr>finalized := True\<rparr>),
          snd aw))"

section \<open>Choosing families at random\<close>

text \<open>
  \<^verbatim>\<open>pickRandomFonts\<close> (lines 40 to 47). The \<^verbatim>\<open>Set\<close> keeps its elements in the order
  they were first added, and \<^verbatim>\<open>[...picked]\<close> lists them in that order. \<open>rnd i\<close> is the
  value of \<^verbatim>\<open>Math.floor(Math.random() * fontList.length)\<close> in round \<open>i\<close> of the loop;
  reading \<^verbatim>\<open>fontList\<close> past its end gives \<^verbatim>\<open>undefined\<close> (\<open>None\<close>). The loop need
  not end: \<open>None\<close> is the run that never returns.
\<close>

definition set_add :: "'a list \<Rightarrow> 'a \<Rightarrow> 'a list" where
  "set_add picked x = (if x \<in> set picked then picked else picked @ [x])"

definition at_index :: "'a list \<Rightarrow> nat \<Rightarrow> 'a option" where
  "at_index xs i = (if i < length xs then Some (xs ! i) else None)"

partial_function (option) pickLoop ::
  "'a list \<Rightarrow> nat \<Rightarrow> (nat \<Rightarrow> nat) \<Rightarrow> nat \<Rightarrow> 'a option list \<Rightarrow> 'a option list option" where
  "pickLoop fontList n rnd i picked =
     (if length picked < n
      then pickLoop fontList n rnd (Suc i) (set_add picked (at_index fontList (rnd i)))
      else Some picked)"

definition pickRandomFonts :: "'a list \<Rightarrow> nat \<Rightarrow> (nat \<Rightarrow> nat) \<Rightarrow> 'a option list option" where
  "pickRandomFonts fontList n rnd = pickLoop fontList n rnd 0 []"

section \<open>The two handlers\<close>

text \<open>The query of a request: the four parameters the handlers read.\<close>

record query =
  q_format :: param
  q_count :: param
  q_weights :: param
  q_name :: param

text \<open>The error middleware (lines 230 to 233): \<^verbatim>\<open>err.status || 500\<close>.\<close>

fun errorMiddleware :: "js_error \<Rightarrow> response" where
  "errorMiddleware (StatusError st msg) = ErrorJson (if st = 0 then 500 else st) (Some msg)"
| "errorMiddleware TypeError = ErrorJson 500 None"

text \<open>
  The weights of a request (lines 152 to 154 and 171 to 173):
  \<^verbatim>\<open>(req.query.weights || '100,...,900').split(',').map(w => parseInt(w, 10))\<close>.
  An array or an object is truthy and has no \<^verbatim>\<open>split\<close> to call: a TypeError.
\<close>

definition default_weights :: js_string where
  "default_weights = js ''100,200,300,400,500,600,700,800,900''"

definition parseWeights :: "env \<Rightarrow> param \<Rightarrow> js_error + number list" where
  "parseWeights e weights =
     (case weights of
        Absent \<Rightarrow> Inr (map (parseInt e) (split_on 44 default_weights))
      | Text s \<Rightarrow> Inr (map (parseInt e) (split_on 44 (if s = [] then default_weights else s)))
      | Structured t \<Rightarrow> Inl TypeError)"

text \<open>
  \<^verbatim>\<open>parseInt(req.query.count, 10)\<close> (line 151): \<^verbatim>\<open>parseInt\<close> converts its argument to a
  string, \<^verbatim>\<open>undefined\<close> to the text \<^verbatim>\<open>undefined\<close>.
\<close>

definition parseCount :: "env \<Rightarrow> param \<Rightarrow> number" where
  "parseCount e count =
     (case count of
        Absent \<Rightarrow> parseInt e (js ''undefined'')
      | Text s \<Rightarrow> parseInt e s
      | Structured t \<Rightarrow> parseInt e t)"

text \<open>
  The test of line 156,
  \<^verbatim>\<open>isNaN(count) || count < 10 || count > 100 || count % 10 !== 0\<close>.
\<close>

fun badCount :: "number \<Rightarrow> bool" where
  "badCount NaN = True"
| "badCount (Num c) = (c < 10 \<or> c > 100 \<or> c mod 10 \<noteq> 0)"
| "badCount PosInfinity = True"
| "badCount NegInfinity = True"

fun countValue :: "number \<Rightarrow> nat" where
  "countValue (Num c) = nat c"
| "countValue _ = 0"

text \<open>
  The handler of \<^verbatim>\<open>/download-random\<close> (lines 148 to 165). The message of line 157
  holds the character U+2026. \<open>None\<close>: the handler never answers, because
  \<^verbatim>\<open>pickRandomFonts\<close> does not return.
\<close>

definition download_random ::
  "env \<Rightarrow> js_string list \<Rightarrow> (nat \<Rightarrow> nat) \<Rightarrow> int \<Rightarrow> query \<Rightarrow> world \<Rightarrow> (response \<times> world) option"
  where
  "download_random e fontList rnd now q w =
     (case validateFormat (q_format q) of
        Inl err \<Rightarrow> Some (errorMiddleware err, w)
      | Inr format \<Rightarrow>
          (let count = parseCount e (q_count q)
           in case parseWeights e (q_weights q) of
                Inl err \<Rightarrow> Some (errorMiddleware err, w)
              | Inr weights \<Rightarrow>
                  if badCount count
                  then Some (errorMiddleware
                               (StatusError 400
                                  (js ''count must be one of 10,20,'' @ [8230] @ js '',100'')), w)
                  else (case pickRandomFonts fontList (countValue count) rnd of
                          None \<Rightarrow> None
                        | Some selection \<Rightarrow>
                            Some (streamFontsAsZip e now selection format weights w))))"

text \<open>
  \<^verbatim>\<open>res.setHeader\<close> throws a TypeError (\<^verbatim>\<open>ERR_INVALID_CHAR\<close>) when the value of the
  header holds a character other than the tabulator, U+0020 to U+007E and U+0080 to
  U+00FF.
\<close>

definition header_char :: "nat \<Rightarrow> bool" where
  "header_char c \<longleftrightarrow> c = 9 \<or> (32 \<le> c \<and> c \<le> 126) \<or> (128 \<le> c \<and> c \<le> 255)"

definition zipName :: "js_string \<Rightarrow> format \<Rightarrow> int \<Rightarrow> js_string" where
  "zipName normalized format now =
     safeFamily normalized @ js ''-'' @ format_str format @ js ''-'' @ decimal now @ js ''.zip''"

text \<open>
  The handler of \<^verbatim>\<open>/download-by-name\<close> (lines 167 to 228). \<^verbatim>\<open>!name\<close> holds for a
  parameter that is missing or empty; an array or an object passes that test and has no
  \<^verbatim>\<open>trim\<close> to call. Code unit 34 is the double quote of the message of line 189. The
  loop of lines 206 to 222 is the loop over the weights of \<^verbatim>\<open>streamFontsAsZip\<close>,
  written out again for the one normalized name.
\<close>

definition download_by_name ::
  "env \<Rightarrow> js_string list \<Rightarrow> int \<Rightarrow> query \<Rightarrow> world \<Rightarrow> response \<times> world" where
  "download_by_name e fontList now q w =
     (case validateFormat (q_format q) of
        Inl err \<Rightarrow> (errorMiddleware err, w)
      | Inr format \<Rightarrow>
          (case parseWeights e (q_weights q) of
             Inl err \<Rightarrow> (errorMiddleware err, w)
           | Inr weights \<Rightarrow>
               (case q_name q of
                  Absent \<Rightarrow> (errorMiddleware (StatusError 400 (js ''Font name is required'')), w)
                | Structured t \<Rightarrow> (errorMiddleware TypeError, w)
                | Text name \<Rightarrow>
                    if name = []
                    then (errorMiddleware (StatusError 400 (js ''Font name is required'')), w)
                    else (case normalizeName e name of
                            Inl err \<Rightarrow> (errorMiddleware err, w)
                          | Inr normalized \<Rightarrow>
                              if normalized \<notin> set fontList
                              then (errorMiddleware
                                      (StatusError 404
                                         (js ''Font '' @ [34] @ normalized @ [34] @
                                          js '' not found.'')), w)
                              else if \<not> list_all header_char
                                         (js ''attachment; filename='' @
                                          zipName normalized format now)
                              then (errorMiddleware TypeError, w)
                              else (let aw = addWeights e normalized format weights
                                               (new_archive, w)
                                    in (ZipStream (zipName normalized format now)
                                          ((fst aw)\<lparr>finalized := True\<rparr>),
                                        snd aw))))))"

section \<open>Auxiliary notions for the proofs\<close>

text \<open>A word as \<^verbatim>\<open>split(/\s+/)\<close> yields it from a trimmed, non-empty string.\<close>

definition word_ok :: "js_string \<Rightarrow> bool" where
  "word_ok w \<longleftrightarrow> w \<noteq> [] \<and> (\<forall>c\<in>set w. \<not> isWhiteSpace c)"

text \<open>The callback of line 183 on a non-empty word.\<close>

definition cap :: "env \<Rightarrow> js_string \<Rightarrow> js_string" where
  "cap e w = toUpperCase e (hd w) @ toLowerCase e (tl w)"

text \<open>
  What this development uses of the case conversion of the runtime, which Unicode's case
  conversion has: converting to lower case a second time changes nothing, and neither
  conversion makes whitespace of something else, or nothing of a letter.
\<close>

definition case_mapping :: "env \<Rightarrow> bool" where
  "case_mapping e \<longleftrightarrow>
     (\<forall>s. toLowerCase e (toLowerCase e s) = toLowerCase e s) \<and>
     (\<forall>s. (\<forall>c\<in>set s. \<not> isWhiteSpace c) \<longrightarrow> (\<forall>c\<in>set (toLowerCase e s). \<not> isWhiteSpace c)) \<and>
     (\<forall>c. \<not> isWhiteSpace c \<longrightarrow>
          toUpperCase e c \<noteq> [] \<and> (\<forall>d\<in>set (toUpperCase e c). \<not> isWhiteSpace d))"

text \<open>
  A letter with a stable upper case: one code unit, which is its own upper case. The
  sharp s (U+00DF), whose upper case is \<^verbatim>\<open>SS\<close>, has none.
\<close>

definition stable_upper :: "env \<Rightarrow> nat \<Rightarrow> bool" where
  "stable_upper e c \<longleftrightarrow>
     length (toUpperCase e c) = 1 \<and> toUpperCase e (hd (toUpperCase e c)) = toUpperCase e c"

text \<open>A runtime whose case conversion on U+0000 to U+00FF is that of the tables.\<close>

definition latin1_case :: "env \<Rightarrow> bool" where
  "latin1_case e \<longleftrightarrow>
     (\<forall>c<256. toUpperCase e c = latin1_upper c) \<and>
     (\<forall>s. (\<forall>c\<in>set s. c < 256) \<longrightarrow> toLowerCase e s = map latin1_lower s)"

text \<open>
  The tally of a batch: for each pair of a family and a weight, in the order of the loops,
  what the body of the inner \<^verbatim>\<open>try\<close> returned or threw when its turn came, together
  with the world after the whole batch. A failed attempt leaves its warning.
\<close>

type_synonym outcome = "(js_string \<times> number) \<times> (item_error + js_string \<times> js_string)"

fun attempts :: "env \<Rightarrow> format \<Rightarrow> (js_string \<times> number) list \<Rightarrow> world \<Rightarrow> outcome list \<times> world" where
  "attempts e format [] w = ([], w)"
| "attempts e format ((family, weight) # ps) w =
     (case fetchWeight e family format weight w of
        (Inr entry, w1) \<Rightarrow>
          (case attempts e format ps w1 of
             (outs, w2) \<Rightarrow> (((family, weight), Inr entry) # outs, w2))
      | (Inl err, w1) \<Rightarrow>
          (case attempts e format ps (w1\<lparr>warnings := warnings w1 @ [(Some family, weight, err)]\<rparr>) of
             (outs, w2) \<Rightarrow> (((family, weight), Inl err) # outs, w2)))"

text \<open>The pairs whose attempt succeeded, the warnings of those that failed.\<close>

definition succeeded :: "outcome list \<Rightarrow> (js_string \<times> number) list" where
  "succeeded outs = map fst (filter (\<lambda>x. \<not> isl (snd x)) outs)"

definition failed :: "outcome list \<Rightarrow> (js_string option \<times> number \<times> item_error) list" where
  "failed outs =
     map (\<lambda>x. (Some (fst (fst x)), snd (fst x), projl (snd x))) (filter (\<lambda>x. isl (snd x)) outs)"

text \<open>The arguments of \<^verbatim>\<open>archive.file\<close> for a pair: the cached file and the entry name.\<close>

definition entry_of :: "env \<Rightarrow> format \<Rightarrow> js_string \<times> number \<Rightarrow> js_string \<times> js_string" where
  "entry_of e format p = (fontPath e (fst p) (snd p) format, entryName e (fst p) (snd p) format)"

text \<open>
  A small environment for the examples: the cache lives in \<^verbatim>\<open>/cache\<close>, and the paths
  are those of a POSIX system for segments that need no normalization; the case
  conversion is that of the runtime on U+0000 to U+00FF, and the examples use no other
  character; no example has a number above \<open>2 ^ 53\<close>: this environment makes an
  infinity of each, and has one text for the numbers from \<open>10 ^ 21\<close> on. The style sheet services know the family Roboto, but the \<^verbatim>\<open>css2\<close>
  service has no weight 300 of it; every font file has the same four bytes; the file
  system accepts every operation. The world \<open>empty_world\<close> has no file and empty logs.
\<close>

definition example_env :: env where
  "example_env =
     \<lparr>fonts_dir = js ''/cache'',
      path_join = (\<lambda>a b. a @ [47] @ b),
      toUpperCase = latin1_upper,
      toLowerCase = map latin1_lower,
      big_number = (\<lambda>v. if v < 0 then NegInfinity else PosInfinity),
      big_text = (\<lambda>v. js ''1e+21''),
      css2_response = (\<lambda>family weight.
         if family = js ''Roboto'' \<and> weight \<noteq> Num 300
         then Some (js ''src: url(https://fonts.gstatic.com/r.woff2) format'') else None),
      css_response = (\<lambda>family weight.
         if family = js ''Roboto'' then Some (js ''src: url(https://fonts.gstatic.com/r.ttf)'')
         else None),
      asset_response = (\<lambda>url. Some [119, 79, 70, 50]),
      mkdir_fails = (\<lambda>p. False),
      write_result = (\<lambda>p data. WriteOk)\<rparr>"

definition empty_world :: world where
  "empty_world = \<lparr>fs = (\<lambda>p. None), requests = [], fs_ops = [], warnings = []\<rparr>"

text \<open>
  The request a resolution sends for a style sheet, and the URL it finds: what
  \<^verbatim>\<open>resolveWoff2Url\<close> or \<^verbatim>\<open>resolveTtfUrl\<close> returns, \<open>None\<close> when it throws.
\<close>

definition manifest_request :: "format \<Rightarrow> js_string \<Rightarrow> number \<Rightarrow> request" where
  "manifest_request format family weight =
     (if format = Woff2 then GetCss2 family weight else GetCss family weight)"

definition resolved_url :: "env \<Rightarrow> format \<Rightarrow> js_string \<Rightarrow> number \<Rightarrow> js_string option" where
  "resolved_url e format family weight =
     (if \<not> well_formed family then None
      else if format = Woff2
      then (case css2_response e family weight of
              None \<Rightarrow> None | Some css \<Rightarrow> match_font_url (js ''.woff2'') css)
      else (case css_response e family weight of
              None \<Rightarrow> None | Some css \<Rightarrow> match_font_url (js ''.ttf'') css))"

text \<open>
  The requests a resolution sends (none for a family of which no URL can be built), and
  what it throws when it finds no URL.
\<close>

definition resolve_requests :: "format \<Rightarrow> js_string \<Rightarrow> number \<Rightarrow> request list" where
  "resolve_requests format family weight =
     (if well_formed family then [manifest_request format family weight] else [])"

definition resolve_error :: "env \<Rightarrow> format \<Rightarrow> js_string \<Rightarrow> number \<Rightarrow> item_error" where
  "resolve_error e format family weight =
     (if \<not> well_formed family then UriMalformed
      else if (if format = Woff2 then css2_response e family weight
               else css_response e family weight) = None
      then ManifestFailed else NoUrlFound)"

text \<open>
  The requests for a style sheet. A weight of a family can be fetched, whatever the cache
  holds, when its URL resolves, the file behind the URL can be downloaded, and the file
  system accepts the directory and the file. The tally of a request for whole families.
\<close>

fun is_manifest :: "request \<Rightarrow> bool" where
  "is_manifest (GetCss2 family weight) = True"
| "is_manifest (GetCss family weight) = True"
| "is_manifest (GetAsset url) = False"

definition can_fetch :: "env \<Rightarrow> js_string \<Rightarrow> format \<Rightarrow> number \<Rightarrow> bool" where
  "can_fetch e family format weight =
     (case resolved_url e format family weight of
        None \<Rightarrow> False
      | Some url \<Rightarrow>
          (case asset_response e url of
             None \<Rightarrow> False
           | Some data \<Rightarrow>
               \<not> mkdir_fails e (fontDir e family) \<and>
               write_result e (fontPath e family weight format) data = WriteOk))"

definition tally ::
  "env \<Rightarrow> format \<Rightarrow> js_string list \<Rightarrow> number list \<Rightarrow> world \<Rightarrow> outcome list \<times> world" where
  "tally e format families weights w = attempts e format (List.product families weights) w"

text \<open>The set \<^verbatim>\<open>picked\<close> after \<open>i\<close> rounds of the loop of \<^verbatim>\<open>pickRandomFonts\<close>.\<close>

fun picked_after :: "'a list \<Rightarrow> (nat \<Rightarrow> nat) \<Rightarrow> nat \<Rightarrow> 'a option list" where
  "picked_after fontList rnd 0 = []"
| "picked_after fontList rnd (Suc i) =
     set_add (picked_after fontList rnd i) (at_index fontList (rnd i))"



text \<open>
  What a \<^verbatim>\<open>writeFileSync\<close> of \<open>data\<close> leaves at the path \<open>p\<close> that held \<open>old\<close>: the
  data when it succeeds; when it fails, what was there before, or what the failed write
  left behind.
\<close>

definition written :: "env \<Rightarrow> js_string \<Rightarrow> bytes \<Rightarrow> node option \<Rightarrow> node option" where
  "written e p data old =
     (case write_result e p data of
        WriteOk \<Rightarrow> Some (File data)
      | WriteError None \<Rightarrow> old
      | WriteError (Some left) \<Rightarrow> Some (File left))"

text \<open>
  The example environment with a file system on which every write fails after the first
  byte (a full disk, say), leaving a file of one byte.
\<close>

definition truncating_env :: env where
  "truncating_env = example_env\<lparr>write_result := (\<lambda>p data. WriteError (Some (take 1 data)))\<rparr>"

text \<open>Requests used in the examples.\<close>

definition otf_query :: query where
  "otf_query = \<lparr>q_format = Text (js ''otf''), q_count = Text (js ''10''), q_weights = Absent,
     q_name = Text (js ''Roboto'')\<rparr>"

definition blank_query :: query where
  "blank_query = \<lparr>q_format = Text (js ''ttf''), q_count = Absent, q_weights = Absent,
     q_name = Text (js ''  '')\<rparr>"

definition roboto_query :: query where
  "roboto_query = \<lparr>q_format = Text (js ''woff2''), q_count = Absent,
     q_weights = Text (js ''300,400''), q_name = Text (js ''roboto'')\<rparr>"

definition nameless_query :: query where
  "nameless_query = \<lparr>q_format = Text (js ''woff2''), q_count = Absent, q_weights = Absent,
     q_name = Absent\<rparr>"

text \<open>
  A request that repeats the parameter \<^verbatim>\<open>weights\<close>
  (\<^verbatim>\<open>?format=woff2&weights=400&weights=700\<close>), which arrives as an array, and has no
  name.
\<close>

definition repeated_weights_query :: query where
  "repeated_weights_query = \<lparr>q_format = Text (js ''woff2''), q_count = Absent,
     q_weights = Structured (js ''400,700''), q_name = Absent\<rparr>"

text \<open>A parameter that is an array or an object.\<close>

fun structured :: "param \<Rightarrow> bool" where
  "structured (Structured t) = True"
| "structured _ = False"

text \<open>
  A weight as the specification means it: a multiple of 100 between 100 and 900. The
  status of an answer: that of the error, or 200 for the archive.
\<close>

fun valid_weight :: "number \<Rightarrow> bool" where
  "valid_weight (Num i) = (100 \<le> i \<and> i \<le> 900 \<and> i mod 100 = 0)"
| "valid_weight _ = False"

fun response_status :: "response \<Rightarrow> nat" where
  "response_status (ErrorJson st msg) = st"
| "response_status (ZipStream name a) = 200"

text \<open>
  The three shapes of the text of a number in plain notation: \<^verbatim>\<open>NaN\<close>, digits, a
  minus sign and digits.
\<close>

datatype shape = IsNaN | NonNeg nat | Neg nat

fun shape_of :: "number \<Rightarrow> shape" where
  "shape_of (Num i) = (if i < 0 then Neg (nat (- i)) else NonNeg (nat i))"
| "shape_of _ = IsNaN"

text \<open>The definitions to unfold when an example is evaluated.\<close>

lemmas string_eval = digits_of.simps js_def isWhiteSpace_def trim_def split_ws_def split_on_def
  replace_ws_def latin1_upper_def latin1_lower_def isDigit_def decimal_def
  parseInt_def normalizeName_def safeFamily_def fontFilename_def entryName_def Let_def

lemmas world_eval = fontDir_def fontPath_def existsSync_def mkdirSync_def
  writeFileSync_def match_at_def resolveWoff2Url_def resolveTtfUrl_def
  downloadAndSaveFont_begin_def downloadAndSaveFont_finish_def downloadAndSaveFont_def
  fetchWeight_def example_env_def empty_world_def validateFormat_def parseWeights_def
  default_weights_def
section \<open>Splitting, joining and trimming\<close>

lemma split_from_word:
  "w \<noteq> [] \<Longrightarrow> \<forall>c\<in>set w. \<not> isWhiteSpace c \<Longrightarrow>
   split_from cur inws (w @ rest) = split_from (cur @ w) False rest"
proof (induction w arbitrary: cur inws)
  case Nil
  then show ?case by simp
next
  case (Cons a w)
  show ?case
  proof (cases "w = []")
    case True
    with Cons.prems show ?thesis by simp
  next
    case False
    with Cons.prems Cons.IH [of "cur @ [a]" False] show ?thesis by simp
  qed
qed

lemma split_from_join:
  "ws \<noteq> [] \<Longrightarrow> \<forall>w\<in>set ws. word_ok w \<Longrightarrow> isWhiteSpace s \<Longrightarrow>
   split_from [] inws (join [s] ws) = ws"
proof (induction ws arbitrary: inws)
  case Nil
  then show ?case by simp
next
  case (Cons w ws)
  from Cons.prems have w: "w \<noteq> []" "\<forall>c\<in>set w. \<not> isWhiteSpace c"
    by (simp_all add: word_ok_def)
  show ?case
  proof (cases ws)
    case Nil
    with w show ?thesis
      using split_from_word [of w "[]" inws "[]"] by simp
  next
    case (Cons v vs)
    have "split_from [] inws (w @ [s] @ join [s] (v # vs)) =
          split_from ([] @ w) False ([s] @ join [s] (v # vs))"
      using w by (intro split_from_word)
    also have "\<dots> = w # split_from [] True (join [s] (v # vs))"
      using \<open>isWhiteSpace s\<close> by simp
    also have "\<dots> = w # v # vs"
      using Cons.IH [of True] Cons.prems Cons by simp
    finally show ?thesis using Cons by simp
  qed
qed

lemma split_from_words_ok:
  "\<forall>c\<in>set cur. \<not> isWhiteSpace c \<Longrightarrow> (s = [] \<longrightarrow> cur \<noteq> []) \<Longrightarrow>
   (s \<noteq> [] \<longrightarrow> \<not> isWhiteSpace (last s)) \<Longrightarrow>
   (cur = [] \<and> \<not> inws \<longrightarrow> s \<noteq> [] \<and> \<not> isWhiteSpace (hd s)) \<Longrightarrow>
   \<forall>w\<in>set (split_from cur inws s). word_ok w"
proof (induction s arbitrary: cur inws)
  case Nil
  then show ?case by (simp add: word_ok_def)
next
  case (Cons c cs)
  show ?case
  proof (cases "isWhiteSpace c")
    case True
    with Cons.prems have cs: "cs \<noteq> []" "\<not> isWhiteSpace (last cs)" by (auto split: if_splits)
    show ?thesis
    proof (cases inws)
      case True
      with \<open>isWhiteSpace c\<close> cs Cons.prems Cons.IH [of cur True] show ?thesis by simp
    next
      case False
      with \<open>isWhiteSpace c\<close> Cons.prems have "cur \<noteq> []" by auto
      with False \<open>isWhiteSpace c\<close> cs Cons.prems Cons.IH [of "[]" True] show ?thesis
        by (simp add: word_ok_def)
    qed
  next
    case False
    with Cons.prems Cons.IH [of "cur @ [c]" False] show ?thesis by (auto split: if_splits)
  qed
qed

lemma split_from_nonempty: "split_from cur inws s \<noteq> []"
  by (induction s arbitrary: cur inws) auto

lemma trim_ends:
  "trim s \<noteq> [] \<Longrightarrow> \<not> isWhiteSpace (hd (trim s)) \<and> \<not> isWhiteSpace (last (trim s))"
proof -
  assume ne: "trim s \<noteq> []"
  let ?d = "dropWhile isWhiteSpace s"
  let ?r = "dropWhile isWhiteSpace (rev ?d)"
  from ne have r: "?r \<noteq> []" by (simp add: trim_def)
  then have hr: "\<not> isWhiteSpace (hd ?r)" by (rule hd_dropWhile)
  have d: "?d \<noteq> []"
  proof
    assume e: "?d = []"
    have "?r = []" unfolding e by simp
    with r show False by simp
  qed
  then have hd: "\<not> isWhiteSpace (hd ?d)" by (rule hd_dropWhile)
  have "last (trim s) = hd ?r" using r by (simp add: trim_def last_rev)
  moreover have "hd (trim s) = hd ?d"
  proof -
    have "hd (trim s) = last ?r" using r by (simp add: trim_def hd_rev)
    also have "\<dots> = last (rev ?d)"
      using r by (metis append_Nil2 last_appendR takeWhile_dropWhile_id)
    also have "\<dots> = hd ?d" using d by (simp add: last_rev)
    finally show ?thesis .
  qed
  ultimately show ?thesis using hr hd by simp
qed

lemma trim_fixed:
  "s \<noteq> [] \<Longrightarrow> \<not> isWhiteSpace (hd s) \<Longrightarrow> \<not> isWhiteSpace (last s) \<Longrightarrow> trim s = s"
proof -
  assume a: "s \<noteq> []" "\<not> isWhiteSpace (hd s)" "\<not> isWhiteSpace (last s)"
  then have 1: "dropWhile isWhiteSpace s = s" by (cases s) auto
  from a have "rev s \<noteq> []" "\<not> isWhiteSpace (hd (rev s))" by (simp_all add: hd_rev)
  then have 2: "dropWhile isWhiteSpace (rev s) = rev s" by (cases "rev s") auto
  show ?thesis by (simp add: trim_def 1 2)
qed

lemma join_ends:
  "ws \<noteq> [] \<Longrightarrow> \<forall>w\<in>set ws. word_ok w \<Longrightarrow>
   join sep ws \<noteq> [] \<and> hd (join sep ws) = hd (hd ws) \<and> last (join sep ws) = last (last ws)"
  by (induction sep ws rule: join.induct) (auto simp: word_ok_def)


lemma js_space: "js '' '' = [32]"
  by (simp add: js_def)

lemma capitalize_cap: "w \<noteq> [] \<Longrightarrow> capitalize e w = Inr (cap e w)"
  by (cases w) (simp_all add: cap_def)

lemma map_throw_capitalize:
  "\<forall>w\<in>set ws. w \<noteq> [] \<Longrightarrow> map_throw (capitalize e) ws = Inr (map (cap e) ws)"
  by (induction ws) (simp_all add: capitalize_cap)

lemma map_throw_capitalize_Inr:
  "map_throw (capitalize e) ws = Inr ys \<Longrightarrow> \<forall>w\<in>set ws. w \<noteq> []"
proof (induction ws arbitrary: ys)
  case Nil
  then show ?case by simp
next
  case (Cons w ws)
  then show ?case by (cases w) (auto split: sum.splits)
qed

lemma normalizeName_words:
  assumes "normalizeName e x = Inr y"
  shows "split_ws (trim x) \<noteq> [] \<and> (\<forall>w\<in>set (split_ws (trim x)). word_ok w) \<and>
         y = join [32] (map (cap e) (split_ws (trim x)))"
proof -
  let ?ws = "split_ws (trim x)"
  from assms obtain ys where ys: "map_throw (capitalize e) ?ws = Inr ys" "y = join [32] ys"
    by (auto simp: normalizeName_def js_space split: sum.splits)
  from ys(1) have ne: "\<forall>w\<in>set ?ws. w \<noteq> []" by (rule map_throw_capitalize_Inr)
  have t: "trim x \<noteq> []"
  proof
    assume "trim x = []"
    then have "?ws = [[]]" by (simp add: split_ws_def)
    with ne show False by simp
  qed
  then have "\<not> isWhiteSpace (hd (trim x))" "\<not> isWhiteSpace (last (trim x))"
    using trim_ends [of x] by simp_all
  with t have ok: "\<forall>w\<in>set ?ws. word_ok w"
    unfolding split_ws_def by (intro split_from_words_ok) simp_all
  from ne ys have "ys = map (cap e) ?ws" by (simp add: map_throw_capitalize)
  with ys ok show ?thesis by (simp add: split_ws_def split_from_nonempty)
qed

lemma normalizeName_of_words:
  assumes "ws \<noteq> []" "\<forall>w\<in>set ws. word_ok w"
  shows "normalizeName e (join [32] ws) = Inr (join [32] (map (cap e) ws))"
proof -
  let ?y = "join [32] ws"
  from assms have e: "?y \<noteq> []" "hd ?y = hd (hd ws)" "last ?y = last (last ws)"
    using join_ends [of ws "[32]"] by simp_all
  from assms have "word_ok (hd ws)" "word_ok (last ws)" by simp_all
  then have "\<not> isWhiteSpace (hd (hd ws))" "\<not> isWhiteSpace (last (last ws))"
    by (simp_all add: word_ok_def)
  with e have "trim ?y = ?y" by (intro trim_fixed) simp_all
  moreover have "split_ws ?y = ws"
    unfolding split_ws_def using assms by (intro split_from_join) (simp_all add: isWhiteSpace_def)
  moreover from assms have "map_throw (capitalize e) ws = Inr (map (cap e) ws)"
    by (intro map_throw_capitalize) (simp add: word_ok_def)
  ultimately show ?thesis by (simp add: normalizeName_def js_space)
qed

section \<open>Case conversion\<close>

lemma latin1_lower_not_ws: "\<not> isWhiteSpace c \<Longrightarrow> \<not> isWhiteSpace (latin1_lower c)"
  by (auto simp: latin1_lower_def isWhiteSpace_def)

lemma latin1_upper_range:
  "d \<in> set (latin1_upper c) \<Longrightarrow>
   d = c \<or> (65 \<le> d \<and> d \<le> 90) \<or> (192 \<le> d \<and> d \<le> 222) \<or> d = 83 \<or> d = 376 \<or> d = 924"
  by (auto simp: latin1_upper_def split: if_splits)

lemma letter_not_ws:
  "(65 \<le> d \<and> d \<le> 90) \<or> (192 \<le> d \<and> d \<le> 222) \<or> d = 83 \<or> d = 376 \<or> d = 924 \<Longrightarrow>
   \<not> isWhiteSpace d"
  unfolding isWhiteSpace_def by arith

lemma latin1_upper_not_ws:
  "\<not> isWhiteSpace c \<Longrightarrow> d \<in> set (latin1_upper c) \<Longrightarrow> \<not> isWhiteSpace d"
  using latin1_upper_range [of d c] letter_not_ws [of d] by blast

lemma latin1_upper_nonempty: "latin1_upper c \<noteq> []"
  by (simp add: latin1_upper_def)

lemma latin1_lower_idem: "latin1_lower (latin1_lower c) = latin1_lower c"
  by (auto simp: latin1_lower_def)

lemma case_mapping_example: "case_mapping example_env"
proof -
  have u: "toUpperCase example_env = latin1_upper" and l: "toLowerCase example_env = map latin1_lower"
    by (simp_all add: example_env_def)
  have 1: "map latin1_lower (map latin1_lower s) = map latin1_lower s" for s
    by (simp add: latin1_lower_idem)
  have 2: "\<forall>c\<in>set (map latin1_lower s). \<not> isWhiteSpace c" if "\<forall>c\<in>set s. \<not> isWhiteSpace c" for s
    using that latin1_lower_not_ws by (induction s) simp_all
  have 3: "latin1_upper c \<noteq> [] \<and> (\<forall>d\<in>set (latin1_upper c). \<not> isWhiteSpace d)"
    if "\<not> isWhiteSpace c" for c
    using that latin1_upper_not_ws [of c] latin1_upper_nonempty [of c] by blast
  show ?thesis unfolding case_mapping_def u l using 1 2 3 by blast
qed

lemma latin1_case_example: "latin1_case example_env"
  by (simp add: latin1_case_def example_env_def)

lemma case_mapping_lower_idem: "case_mapping e \<Longrightarrow> toLowerCase e (toLowerCase e s) = toLowerCase e s"
  unfolding case_mapping_def by blast

lemma case_mapping_lower_not_ws:
  "case_mapping e \<Longrightarrow> \<forall>c\<in>set s. \<not> isWhiteSpace c \<Longrightarrow> d \<in> set (toLowerCase e s) \<Longrightarrow>
   \<not> isWhiteSpace d"
  unfolding case_mapping_def by blast

lemma case_mapping_upper:
  "case_mapping e \<Longrightarrow> \<not> isWhiteSpace c \<Longrightarrow>
   toUpperCase e c \<noteq> [] \<and> (\<forall>d\<in>set (toUpperCase e c). \<not> isWhiteSpace d)"
  unfolding case_mapping_def by blast

lemma cap_word_ok:
  assumes cm: "case_mapping e" and ok: "word_ok w"
  shows "word_ok (cap e w)"
proof -
  from ok obtain c cs where w: "w = c # cs" by (cases w) (auto simp: word_ok_def)
  with ok have c: "\<not> isWhiteSpace c" and cs: "\<forall>d\<in>set cs. \<not> isWhiteSpace d"
    by (auto simp: word_ok_def)
  from case_mapping_upper [OF cm c]
  have u: "toUpperCase e c \<noteq> []" "\<forall>d\<in>set (toUpperCase e c). \<not> isWhiteSpace d" by blast+
  have l: "\<forall>d\<in>set (toLowerCase e cs). \<not> isWhiteSpace d"
    using case_mapping_lower_not_ws [OF cm cs] by blast
  have "cap e w = toUpperCase e c @ toLowerCase e cs" by (simp add: cap_def w)
  with u l show ?thesis unfolding word_ok_def by auto
qed

lemma cap_idem:
  assumes "case_mapping e" "w \<noteq> []" "stable_upper e (hd w)"
  shows "cap e (cap e w) = cap e w"
proof -
  from assms(2) obtain c cs where w: "w = c # cs" by (cases w) auto
  from assms(3) w obtain d where d: "toUpperCase e c = [d]" "toUpperCase e d = [d]"
    by (cases "toUpperCase e c") (auto simp: stable_upper_def)
  have "toLowerCase e (toLowerCase e cs) = toLowerCase e cs"
    using assms(1) by (rule case_mapping_lower_idem)
  then show ?thesis by (simp add: cap_def w d)
qed

section \<open>The loop over the weights\<close>

lemma fetchWeight_entry:
  "fetchWeight e family format weight w = (Inr entry, w1) \<Longrightarrow>
   entry = entry_of e format (family, weight)"
  by (auto simp: fetchWeight_def entry_of_def downloadAndSaveFont_def
      downloadAndSaveFont_begin_def downloadAndSaveFont_finish_def writeFileSync_def Let_def
      split: prod.splits sum.splits if_splits lookup.splits option.splits write_outcome.splits)

lemma attempts_pairs: "map fst (fst (attempts e format ps w)) = ps"
  by (induction e format ps w rule: attempts.induct)
     (auto split: prod.splits sum.splits)

lemma addWeights_attempts:
  "addWeights e family format weights (a, w) =
     (a\<lparr>entries := entries a @
          map (entry_of e format) (succeeded (fst (attempts e format (map (Pair family) weights) w)))\<rparr>,
      snd (attempts e format (map (Pair family) weights) w))"
proof (induction weights arbitrary: a w)
  case Nil
  then show ?case by (simp add: addWeights_def succeeded_def)
next
  case (Cons wt wts)
  obtain r w1 where f: "fetchWeight e family format wt w = (r, w1)" by (cases "fetchWeight e family format wt w")
  show ?case
  proof (cases r)
    case (Inl err)
    let ?w = "w1\<lparr>warnings := warnings w1 @ [(Some family, wt, err)]\<rparr>"
    have "addWeights e family format (wt # wts) (a, w) = addWeights e family format wts (a, ?w)"
      using f Inl by (simp add: addWeights_def addWeight_def)
    then show ?thesis using f Inl Cons.IH [of a ?w]
      by (simp add: succeeded_def split: prod.splits)
  next
    case (Inr entry)
    let ?a = "a\<lparr>entries := entries a @ [entry]\<rparr>"
    have en: "entry = entry_of e format (family, wt)" using f Inr fetchWeight_entry by blast
    have "addWeights e family format (wt # wts) (a, w) = addWeights e family format wts (?a, w1)"
      using f Inr by (simp add: addWeights_def addWeight_def)
    then show ?thesis using f Inr Cons.IH [of ?a w1] en
      by (simp add: succeeded_def split: prod.splits)
  qed
qed

lemma normalizeName_nonempty: "normalizeName e name = Inr n \<Longrightarrow> name \<noteq> []"
  by (auto simp: normalizeName_def trim_def split_ws_def)

lemma validateFormat_Inl:
  "fmt \<noteq> Text (js ''woff2'') \<Longrightarrow> fmt \<noteq> Text (js ''ttf'') \<Longrightarrow>
   validateFormat fmt = Inl (StatusError 400 (js ''Invalid format. Must be woff2 or ttf.''))"
  by (simp add: validateFormat_def)

lemma trim_all_ws:
  assumes "\<forall>c\<in>set s. isWhiteSpace c"
  shows "trim s = []"
proof -
  from assms have d: "dropWhile isWhiteSpace s = []" by simp
  show ?thesis unfolding trim_def d by simp
qed

lemma normalizeName_blank: "\<forall>c\<in>set s. isWhiteSpace c \<Longrightarrow> normalizeName e s = Inl TypeError"
  by (simp add: normalizeName_def trim_all_ws split_ws_def)


lemma parseWeights_structured: "structured x \<Longrightarrow> parseWeights e x = Inl TypeError"
  by (cases x) (simp_all add: parseWeights_def)

lemma parseWeights_Inr: "\<not> structured x \<Longrightarrow> \<exists>ws. parseWeights e x = Inr ws"
  by (cases x) (simp_all add: parseWeights_def)

lemma digits_of_header: "list_all header_char (digits_of n)"
proof (induction n rule: digits_of.induct)
  case (1 n)
  show ?case
  proof (cases "n < 10")
    case True
    then show ?thesis by (subst digits_of.simps) (simp add: header_char_def)
  next
    case False
    with 1 have "list_all header_char (digits_of (n div 10))" by simp
    moreover have "n mod 10 < 10" by simp
    then have "header_char (48 + n mod 10)" unfolding header_char_def by arith
    ultimately show ?thesis using False by (subst digits_of.simps) simp
  qed
qed

lemma decimal_header: "list_all header_char (decimal i)"
  by (simp add: decimal_def digits_of_header header_char_def)

lemma format_str_header: "list_all header_char (format_str format)"
  by (cases format) (simp_all add: js_def header_char_def)

lemma header_prefix: "list_all header_char (js ''attachment; filename='')"
  by (simp add: js_def header_char_def)

lemma zipName_header:
  "list_all header_char (zipName normalized format now) =
     list_all header_char (safeFamily normalized)"
proof -
  have "list_all header_char (js ''-'')" "list_all header_char (js ''.zip'')"
    by (simp_all add: js_def header_char_def)
  then show ?thesis by (simp add: zipName_def decimal_header format_str_header)
qed

lemmas header_value = header_prefix zipName_header
section \<open>The status of an answer\<close>

lemma length_split_on_from: "length (split_on_from sep cur s) = Suc (count_list s sep)"
  by (induction s arbitrary: cur) auto

lemma download_by_name_status:
  "response_status (fst (download_by_name e fontList now q w)) =
     (case validateFormat (q_format q) of
        Inl err \<Rightarrow> response_status (errorMiddleware err)
      | Inr format \<Rightarrow>
          if structured (q_weights q) then 500
          else (case q_name q of
                  Absent \<Rightarrow> 400
                | Structured t \<Rightarrow> 500
                | Text name \<Rightarrow>
                    if name = [] then 400
                    else (case normalizeName e name of
                            Inl err \<Rightarrow> response_status (errorMiddleware err)
                          | Inr normalized \<Rightarrow>
                              if normalized \<notin> set fontList then 404
                              else if list_all header_char (safeFamily normalized) then 200
                              else 500)))"
proof (cases "structured (q_weights q)")
  case True
  then show ?thesis
    by (simp add: download_by_name_def parseWeights_structured split: sum.splits)
next
  case False
  then obtain ws where "parseWeights e (q_weights q) = Inr ws" using parseWeights_Inr by blast
  with False show ?thesis
    by (simp add: download_by_name_def header_value Let_def split: sum.splits param.splits)
qed

lemma download_random_status:
  "map_option (\<lambda>r. response_status (fst r)) (download_random e fontList rnd now q w) =
     (case validateFormat (q_format q) of
        Inl err \<Rightarrow> Some (response_status (errorMiddleware err))
      | Inr format \<Rightarrow>
          if structured (q_weights q) then Some 500
          else if badCount (parseCount e (q_count q)) then Some 400
          else map_option (\<lambda>sel. 200)
                 (pickRandomFonts fontList (countValue (parseCount e (q_count q))) rnd))"
proof (cases "structured (q_weights q)")
  case True
  then show ?thesis
    by (simp add: download_random_def parseWeights_structured Let_def split: sum.splits)
next
  case False
  then obtain ws where "parseWeights e (q_weights q) = Inr ws" using parseWeights_Inr by blast
  with False show ?thesis
    by (simp add: download_random_def Let_def streamFontsAsZip_def
        split: sum.splits option.splits)
qed

lemma split_on_from_token:
  "sep \<notin> set t \<Longrightarrow> split_on_from sep cur (t @ rest) = split_on_from sep (cur @ t) rest"
  by (induction t arbitrary: cur) simp_all

lemma split_on_join:
  "tokens \<noteq> [] \<Longrightarrow> \<forall>t\<in>set tokens. sep \<notin> set t \<Longrightarrow>
   split_on sep (join [sep] tokens) = tokens"
proof (induction tokens)
  case Nil
  then show ?case by simp
next
  case (Cons t ts)
  then have t: "sep \<notin> set t" by simp
  show ?case
  proof (cases ts)
    case Nil
    with split_on_from_token [OF t, of "[]" "[]"] show ?thesis by (simp add: split_on_def)
  next
    case (Cons v vs)
    have "split_on_from sep [] (t @ sep # join [sep] (v # vs)) =
          split_on_from sep ([] @ t) (sep # join [sep] (v # vs))"
      using t by (rule split_on_from_token)
    also have "\<dots> = t # split_on sep (join [sep] (v # vs))" by (simp add: split_on_def)
    also have "\<dots> = t # v # vs" using Cons.IH Cons.prems Cons by simp
    finally show ?thesis using Cons by (simp add: split_on_def)
  qed
qed

lemma default_weights_parsed:
  "map (parseInt e) (split_on 44 default_weights) =
     map Num [100, 200, 300, 400, 500, 600, 700, 800, 900]"
  by (simp add: default_weights_def string_eval)
section \<open>The text of a number and the names built from it\<close>

lemma digits_value_snoc:
  "digits_value acc (xs @ [d]) = digits_value acc xs * 10 + int (d - 48)"
  by (induction xs arbitrary: acc) simp_all

lemma digits_value_digits_of: "digits_value 0 (digits_of n) = int n"
proof (induction n rule: digits_of.induct)
  case (1 n)
  show ?case
  proof (cases "n < 10")
    case True
    then show ?thesis by (subst digits_of.simps) simp
  next
    case False
    with 1 have "digits_value 0 (digits_of (n div 10)) = int (n div 10)" by simp
    with False have "digits_value 0 (digits_of n) = int (n div 10) * 10 + int (n mod 10)"
      by (subst digits_of.simps) (simp add: digits_value_snoc)
    also have "\<dots> = int n" by presburger
    finally show ?thesis .
  qed
qed

lemma digits_of_inj: "digits_of m = digits_of n \<Longrightarrow> m = n"
  by (metis digits_value_digits_of of_nat_eq_iff)

lemma digits_of_digits: "c \<in> set (digits_of n) \<Longrightarrow> isDigit c"
proof (induction n rule: digits_of.induct)
  case (1 n)
  show ?case
  proof (cases "n < 10")
    case True
    with "1.prems" show ?thesis by (subst (asm) digits_of.simps) (simp add: isDigit_def)
  next
    case False
    with "1.prems" have "c \<in> set (digits_of (n div 10)) \<or> c = 48 + n mod 10"
      by (subst (asm) digits_of.simps) auto
    with 1 False show ?thesis by (auto simp: isDigit_def)
  qed
qed

lemma digits_of_nonempty: "digits_of n \<noteq> []"
  by (subst digits_of.simps) simp

lemma takeWhile_rev_digits:
  "\<not> isDigit c \<Longrightarrow> takeWhile isDigit (rev (xs @ c # digits_of n)) = rev (digits_of n)"
  using digits_of_digits by (simp add: takeWhile_append)

lemma shape_of_inj: "plain a \<Longrightarrow> plain b \<Longrightarrow> shape_of a = shape_of b \<Longrightarrow> a = b"
  by (cases a; cases b) (auto split: if_splits)

lemma numToString_shape:
  "plain a \<Longrightarrow>
   numToString e a =
     (case shape_of a of IsNaN \<Rightarrow> [78, 97, 78] | NonNeg n \<Rightarrow> digits_of n
      | Neg n \<Rightarrow> 45 # digits_of n)"
  by (cases a) (simp_all add: js_def decimal_def)

lemma tail_digits:
  assumes "plain a"
  shows "takeWhile isDigit (rev (xs @ 45 # numToString e a)) =
     (case shape_of a of IsNaN \<Rightarrow> [] | NonNeg n \<Rightarrow> rev (digits_of n) | Neg n \<Rightarrow> rev (digits_of n))"
proof (cases "shape_of a")
  case IsNaN
  then show ?thesis by (simp add: numToString_shape [OF assms] isDigit_def)
next
  case (NonNeg n)
  then show ?thesis
    using takeWhile_rev_digits [of 45 xs n] by (simp add: numToString_shape [OF assms] isDigit_def)
next
  case (Neg n)
  then show ?thesis
    using takeWhile_rev_digits [of 45 "xs @ [45]" n] by (simp add: numToString_shape [OF assms] isDigit_def)
qed

lemma name_tail_inj:
  assumes eq: "x @ [s] @ x @ 45 # numToString e a = y @ [s] @ y @ 45 # numToString e b"
    and pl: "plain a" "plain b"
  shows "x = y \<and> a = b"
proof -
  let ?A = "numToString e a" and ?B = "numToString e b"
  from eq have len: "2 * length x + length ?A = 2 * length y + length ?B"
    by (drule_tac arg_cong [where f = length]) simp
  have "takeWhile isDigit (rev ((x @ [s] @ x) @ 45 # ?A)) =
        takeWhile isDigit (rev ((y @ [s] @ y) @ 45 # ?B))"
    using eq by simp
  then have td: "(case shape_of a of IsNaN \<Rightarrow> [] | NonNeg n \<Rightarrow> rev (digits_of n) | Neg n \<Rightarrow> rev (digits_of n)) =
    (case shape_of b of IsNaN \<Rightarrow> [] | NonNeg n \<Rightarrow> rev (digits_of n) | Neg n \<Rightarrow> rev (digits_of n))"
    by (simp only: tail_digits [OF pl(1)] tail_digits [OF pl(2)])
  have "shape_of a = shape_of b"
  proof (cases "shape_of a"; cases "shape_of b")
    fix m n assume "shape_of a = NonNeg m" "shape_of b = Neg n"
    with td len show ?thesis
      using digits_of_inj [of m n] by (simp add: numToString_shape pl) presburger
  next
    fix m n assume "shape_of a = Neg m" "shape_of b = NonNeg n"
    with td len show ?thesis
      using digits_of_inj [of m n] by (simp add: numToString_shape pl) presburger
  qed (use td digits_of_nonempty digits_of_inj in \<open>auto\<close>)
  with pl have ab: "a = b" by (intro shape_of_inj)
  with eq have "x @ [s] @ x = y @ [s] @ y" by simp
  moreover from len ab have "length x = length y" by simp
  ultimately have "x = y" by simp
  with ab show ?thesis by simp
qed

lemma format_str_inj: "xs @ 46 # format_str f = ys @ 46 # format_str g \<Longrightarrow> xs = ys \<and> f = g"
proof -
  assume eq: "xs @ 46 # format_str f = ys @ 46 # format_str g"
  then have "last (xs @ 46 # format_str f) = last (ys @ 46 # format_str g)" by simp
  then have "f = g" by (cases f; cases g) (simp_all add: js_def)
  with eq show ?thesis by simp
qed

lemma name_inj:
  assumes "p @ x @ [s] @ x @ js ''-'' @ numToString e a @ js ''.'' @ format_str f =
           p @ y @ [s] @ y @ js ''-'' @ numToString e b @ js ''.'' @ format_str g"
    and pl: "plain a" "plain b"
  shows "x = y \<and> a = b \<and> f = g"
proof -
  have d: "js ''-'' = [45]" "js ''.'' = [46]" by (simp_all add: js_def)
  from assms(1) have "(x @ [s] @ x @ 45 # numToString e a) @ 46 # format_str f =
                   (y @ [s] @ y @ 45 # numToString e b) @ 46 # format_str g"
    by (simp add: d)
  then have "x @ [s] @ x @ 45 # numToString e a = y @ [s] @ y @ 45 # numToString e b" and "f = g"
    using format_str_inj by blast+
  then show ?thesis using name_tail_inj [OF _ pl] by blast
qed







section \<open>Resolution and the cache\<close>

lemma resolve_result:
  "(if format = Woff2 then resolveWoff2Url e family weight w else resolveTtfUrl e family weight w) =
     ((case resolved_url e format family weight of
         None \<Rightarrow> Inl (resolve_error e format family weight)
       | Some url \<Rightarrow> Inr url),
      w\<lparr>requests := requests w @ resolve_requests format family weight\<rparr>)"
  by (simp add: resolveWoff2Url_def resolveTtfUrl_def resolved_url_def manifest_request_def
      resolve_requests_def resolve_error_def split: option.splits)

lemma downloadAndSaveFont_hit:
  assumes "fs w (fontPath e family weight format) \<noteq> None" "fs w (fontDir e family) \<noteq> None"
  shows "downloadAndSaveFont e family weight url format w =
           (Inr (fontPath e family weight format), w)"
  using assms
  by (simp add: downloadAndSaveFont_def downloadAndSaveFont_begin_def existsSync_def)

section \<open>The batch and its tally\<close>

lemma downloadAndSaveFont_world:
  "filter is_manifest (requests (snd (downloadAndSaveFont e family weight url format w))) =
     filter is_manifest (requests w) \<and>
   warnings (snd (downloadAndSaveFont e family weight url format w)) = warnings w"
  by (simp add: downloadAndSaveFont_def downloadAndSaveFont_begin_def
      downloadAndSaveFont_finish_def mkdirSync_def writeFileSync_def Let_def
      split: option.splits write_outcome.splits)

lemma fetchWeight_world:
  "filter is_manifest (requests (snd (fetchWeight e family format weight w))) =
     filter is_manifest (requests w) @ resolve_requests format family weight \<and>
   warnings (snd (fetchWeight e family format weight w)) = warnings w"
proof -
  let ?w1 = "w\<lparr>requests := requests w @ resolve_requests format family weight\<rparr>"
  have m: "filter is_manifest (resolve_requests format family weight) =
           resolve_requests format family weight"
    by (simp add: resolve_requests_def manifest_request_def)
  show ?thesis
  proof (cases "resolved_url e format family weight")
    case None
    then show ?thesis unfolding fetchWeight_def resolve_result
      by (simp add: m split del: if_split)
  next
    case (Some url)
    obtain r w2 where d: "downloadAndSaveFont e family weight url format ?w1 = (r, w2)"
      by (cases "downloadAndSaveFont e family weight url format ?w1")
    with downloadAndSaveFont_world [of e family weight url format ?w1]
    have "filter is_manifest (requests w2) =
            filter is_manifest (requests w) @ resolve_requests format family weight"
      and "warnings w2 = warnings w"
      by (simp_all add: m)
    with Some d show ?thesis unfolding fetchWeight_def resolve_result
      by (simp split del: if_split split: sum.splits)
  qed
qed

lemma attempts_append:
  "attempts e format (ps @ qs) w =
     (fst (attempts e format ps w) @ fst (attempts e format qs (snd (attempts e format ps w))),
      snd (attempts e format qs (snd (attempts e format ps w))))"
  by (induction e format ps w rule: attempts.induct)
     (auto split: prod.splits sum.splits)

lemma succeeded_append: "succeeded (xs @ ys) = succeeded xs @ succeeded ys"
  by (simp add: succeeded_def)

lemma attempts_requests:
  "filter is_manifest (requests (snd (attempts e format ps w))) =
     filter is_manifest (requests w) @
     map (\<lambda>p. manifest_request format (fst p) (snd p)) (filter (\<lambda>p. well_formed (fst p)) ps)"
proof (induction e format ps w rule: attempts.induct)
  case (1 e format w)
  then show ?case by simp
next
  case (2 e format family weight ps w)
  obtain r w1 where f: "fetchWeight e family format weight w = (r, w1)"
    by (cases "fetchWeight e family format weight w")
  with fetchWeight_world [of e family format weight w]
  have "filter is_manifest (requests w1) =
          filter is_manifest (requests w) @ resolve_requests format family weight"
    by simp
  with f 2 show ?case by (cases r) (simp_all add: case_prod_beta resolve_requests_def)
qed

lemma attempts_warnings:
  "warnings (snd (attempts e format ps w)) = warnings w @ failed (fst (attempts e format ps w))"
proof (induction e format ps w rule: attempts.induct)
  case (1 e format w)
  then show ?case by (simp add: failed_def)
next
  case (2 e format family weight ps w)
  obtain r w1 where f: "fetchWeight e family format weight w = (r, w1)"
    by (cases "fetchWeight e family format weight w")
  with fetchWeight_world [of e family format weight w] have "warnings w1 = warnings w" by simp
  with f 2 show ?case by (cases r) (simp_all add: failed_def case_prod_beta)
qed

lemma succeeded_failed_length:
  "length (succeeded outs) + length (failed outs) = length outs"
  by (simp add: succeeded_def failed_def sum_length_filter_compl add.commute)

lemma addFamily_Some:
  "addFamily e format weights aw (Some f) = addWeights e f format weights aw"
  by (simp add: addFamily_def)

lemma addFamilies_attempts:
  "foldl (addFamily e format weights) (a, w) (map Some families) =
     (a\<lparr>entries := entries a @
          map (entry_of e format)
            (succeeded (fst (attempts e format (List.product families weights) w)))\<rparr>,
      snd (attempts e format (List.product families weights) w))"
proof (induction families arbitrary: a w)
  case Nil
  then show ?case by (simp add: succeeded_def)
next
  case (Cons f fs)
  show ?case
    by (simp add: addFamily_Some addWeights_attempts Cons.IH attempts_append succeeded_append)
qed

lemma can_fetch_succeeds:
  assumes "can_fetch e family format weight"
  shows "fst (fetchWeight e family format weight w) = Inr (entry_of e format (family, weight))"
proof -
  from assms obtain url data where u: "resolved_url e format family weight = Some url"
    and d: "asset_response e url = Some data"
    and m: "\<not> mkdir_fails e (fontDir e family)"
    and wr: "write_result e (fontPath e family weight format) data = WriteOk"
    by (auto simp: can_fetch_def split: option.splits)
  have "fst (downloadAndSaveFont e family weight url format v) = Inr (fontPath e family weight format)"
    for v
    using d m wr
    by (simp add: downloadAndSaveFont_def downloadAndSaveFont_begin_def
        downloadAndSaveFont_finish_def mkdirSync_def writeFileSync_def Let_def)
  then show ?thesis using u unfolding fetchWeight_def resolve_result
    by (simp add: entry_of_def case_prod_beta split del: if_split)
qed

lemma unresolved_fails:
  assumes "resolved_url e format family weight = None"
  shows "isl (fst (fetchWeight e family format weight w))"
  using assms unfolding fetchWeight_def resolve_result by (simp split del: if_split)

lemma attempts_determined:
  assumes "\<forall>wt\<in>set weights. if ok wt then can_fetch e family format wt
             else resolved_url e format family wt = None"
  shows "succeeded (fst (attempts e format (map (Pair family) weights) w)) =
           map (Pair family) (filter ok weights)"
  using assms
proof (induction weights arbitrary: w)
  case Nil
  then show ?case by (simp add: succeeded_def)
next
  case (Cons wt wts)
  obtain r w1 where f: "fetchWeight e family format wt w = (r, w1)"
    by (cases "fetchWeight e family format wt w")
  show ?case
  proof (cases "ok wt")
    case True
    with Cons.prems have "can_fetch e family format wt" by simp
    from can_fetch_succeeds [OF this, of w] f have r: "r = Inr (entry_of e format (family, wt))"
      by simp
    from Cons.prems have "succeeded (fst (attempts e format (map (Pair family) wts) w1)) =
           map (Pair family) (filter ok wts)"
      by (intro Cons.IH) simp
    with f r True show ?thesis by (simp add: succeeded_def case_prod_beta)
  next
    case False
    with Cons.prems have "resolved_url e format family wt = None" by simp
    from unresolved_fails [OF this, of w] f obtain err where r: "r = Inl err" by (cases r) auto
    from Cons.prems have "succeeded (fst (attempts e format (map (Pair family) wts)
             (w1\<lparr>warnings := warnings w1 @ [(Some family, wt, err)]\<rparr>))) =
           map (Pair family) (filter ok wts)"
      by (intro Cons.IH) simp
    with f r False show ?thesis by (simp add: succeeded_def case_prod_beta)
  qed
qed

lemma entryName_weight_inj:
  assumes "entryName e family a format = entryName e family b format" "plain a" "plain b"
  shows "a = b"
proof -
  from assms(1)
  have "[] @ safeFamily family @ [47] @ safeFamily family @ js ''-'' @ numToString e a @
               js ''.'' @ format_str format =
             [] @ safeFamily family @ [47] @ safeFamily family @ js ''-'' @ numToString e b @
               js ''.'' @ format_str format"
    by (simp add: entryName_def fontFilename_def js_def)
  from name_inj [OF this assms(2,3)] show "a = b" by blast
qed


lemma streamFontsAsZip_tally:
  "streamFontsAsZip e now (map Some families) format weights w =
     (ZipStream (js ''fonts-'' @ format_str format @ js ''-'' @ decimal now @ js ''.zip'')
        \<lparr>entries = map (entry_of e format) (succeeded (fst (tally e format families weights w))),
         finalized = True\<rparr>,
      snd (tally e format families weights w))"
  by (simp add: streamFontsAsZip_def addFamilies_attempts new_archive_def tally_def Let_def)

lemma filter_out_absent: "x \<notin> set xs \<Longrightarrow> filter (\<lambda>y. y \<noteq> x) xs = xs"
  by (induction xs) auto

lemma filter_out_length:
  "distinct xs \<Longrightarrow> x \<in> set xs \<Longrightarrow> Suc (length (filter (\<lambda>y. y \<noteq> x) xs)) = length xs"
  by (induction xs) (auto simp: filter_out_absent)

section \<open>The loop of the random choice\<close>

lemma picked_after_distinct: "distinct (picked_after fontList rnd i)"
  by (induction i) (simp_all add: set_add_def)

lemma picked_after_set:
  "set (picked_after fontList rnd i) = (\<lambda>j. at_index fontList (rnd j)) ` {..<i}"
  by (induction i) (auto simp: set_add_def lessThan_Suc)

lemma picked_after_step:
  "length (picked_after fontList rnd (Suc i)) \<le> Suc (length (picked_after fontList rnd i))"
  by (simp add: set_add_def)

lemma picked_after_card:
  assumes "distinct fontList" "\<forall>i. rnd i < length fontList"
  shows "length (picked_after fontList rnd k) = card (rnd ` {..<k})"
proof -
  have inj: "inj_on (at_index fontList) (rnd ` {..<k})"
  proof (rule inj_onI)
    fix a b assume "a \<in> rnd ` {..<k}" "b \<in> rnd ` {..<k}" "at_index fontList a = at_index fontList b"
    with assms(2) have "a < length fontList" "b < length fontList" "fontList ! a = fontList ! b"
      by (auto simp: at_index_def)
    with assms(1) show "a = b" by (simp add: nth_eq_iff_index_eq)
  qed
  have "length (picked_after fontList rnd k) = card (set (picked_after fontList rnd k))"
    by (simp add: distinct_card picked_after_distinct)
  also have "\<dots> = card (at_index fontList ` rnd ` {..<k})"
    by (simp add: picked_after_set image_image)
  also have "\<dots> = card (rnd ` {..<k})" using inj by (rule card_image)
  finally show ?thesis .
qed

lemma all_Some_list:
  "\<forall>x\<in>set xs. \<exists>y\<in>S. x = Some y \<Longrightarrow> \<exists>ys. xs = map Some ys \<and> set ys \<subseteq> S"
proof (induction xs)
  case Nil
  then show ?case by simp
next
  case (Cons x xs)
  then obtain y ys where "x = Some y" "y \<in> S" "xs = map Some ys" "set ys \<subseteq> S" by auto
  then have "x # xs = map Some (y # ys) \<and> set (y # ys) \<subseteq> S" by simp
  then show ?case by (rule exI)
qed

lemma picked_after_members:
  assumes "\<forall>i. rnd i < length fontList"
  shows "\<exists>picked. picked_after fontList rnd k = map Some picked \<and> set picked \<subseteq> set fontList"
proof -
  have "\<forall>x\<in>set (picked_after fontList rnd k). \<exists>y\<in>set fontList. x = Some y"
    using assms by (auto simp: picked_after_set at_index_def)
  then show ?thesis by (rule all_Some_list)
qed

lemma pickLoop_runs:
  "i \<le> k \<Longrightarrow> \<forall>j. i \<le> j \<and> j < k \<longrightarrow> length (picked_after fontList rnd j) < n \<Longrightarrow>
   n \<le> length (picked_after fontList rnd k) \<Longrightarrow>
   pickLoop fontList n rnd i (picked_after fontList rnd i) = Some (picked_after fontList rnd k)"
proof (induction "k - i" arbitrary: i)
  case 0
  then have "i = k" by simp
  with "0.prems" show ?case by (subst pickLoop.simps) simp
next
  case (Suc d)
  then have lt: "i < k" by simp
  with Suc.prems have "length (picked_after fontList rnd i) < n" by simp
  then have "pickLoop fontList n rnd i (picked_after fontList rnd i) =
             pickLoop fontList n rnd (Suc i) (picked_after fontList rnd (Suc i))"
    by (subst pickLoop.simps) simp
  also have "\<dots> = Some (picked_after fontList rnd k)"
    using Suc.hyps Suc.prems lt by (intro Suc.hyps(1)) auto
  finally show ?case .
qed

lemma pickLoop_result:
  assumes "pickLoop fontList n rnd i picked = Some y"
  shows "picked = picked_after fontList rnd i \<longrightarrow>
         (\<exists>k. y = picked_after fontList rnd k \<and> n \<le> length y)"
proof (rule pickLoop.raw_induct
    [where P = "\<lambda>fontList n rnd i picked y. picked = picked_after fontList rnd i \<longrightarrow>
         (\<exists>k. y = picked_after fontList rnd k \<and> n \<le> length y)", OF _ assms])
  fix loop :: "'a list \<Rightarrow> nat \<Rightarrow> (nat \<Rightarrow> nat) \<Rightarrow> nat \<Rightarrow> 'a option list \<Rightarrow> 'a option list option"
  fix fontList n rnd i picked y
  assume ih: "\<And>fontList n rnd i picked y. loop fontList n rnd i picked = Some y \<Longrightarrow>
     picked = picked_after fontList rnd i \<longrightarrow> (\<exists>k. y = picked_after fontList rnd k \<and> n \<le> length y)"
  assume body: "(if length picked < n
      then loop fontList n rnd (Suc i) (set_add picked (at_index fontList (rnd i)))
      else Some picked) = Some y"
  show "picked = picked_after fontList rnd i \<longrightarrow>
        (\<exists>k. y = picked_after fontList rnd k \<and> n \<le> length y)"
  proof
    assume p: "picked = picked_after fontList rnd i"
    show "\<exists>k. y = picked_after fontList rnd k \<and> n \<le> length y"
    proof (cases "length picked < n")
      case True
      with body have "loop fontList n rnd (Suc i) (set_add picked (at_index fontList (rnd i))) =
                      Some y"
        by simp
      from ih [OF this] p show ?thesis by simp
    next
      case False
      with body have "y = picked" by simp
      with False p have "y = picked_after fontList rnd i \<and> n \<le> length y" by simp
      then show ?thesis by (rule exI)
    qed
  qed
qed

lemma pickRandomFonts_returns:
  assumes "n \<le> length (picked_after fontList rnd k)"
  shows "\<exists>m. pickRandomFonts fontList n rnd = Some (picked_after fontList rnd m) \<and>
             length (picked_after fontList rnd m) = n"
proof -
  define m where "m = (LEAST k. n \<le> length (picked_after fontList rnd k))"
  from assms have m: "n \<le> length (picked_after fontList rnd m)"
    unfolding m_def by (rule LeastI)
  have below: "length (picked_after fontList rnd j) < n" if "j < m" for j
    using that not_less_Least [of j "\<lambda>k. n \<le> length (picked_after fontList rnd k)"]
    unfolding m_def by simp
  have "pickLoop fontList n rnd 0 (picked_after fontList rnd 0) = Some (picked_after fontList rnd m)"
    using m below by (intro pickLoop_runs) simp_all
  then have r: "pickRandomFonts fontList n rnd = Some (picked_after fontList rnd m)"
    by (simp add: pickRandomFonts_def)
  have "length (picked_after fontList rnd m) \<le> n"
  proof (cases m)
    case 0
    then show ?thesis by simp
  next
    case (Suc j)
    with below [of j] have "length (picked_after fontList rnd j) < n" by simp
    with picked_after_step [of fontList rnd j] Suc show ?thesis by simp
  qed
  with m r show ?thesis by auto
qed

lemma pickRandomFonts_None:
  assumes "\<forall>k. length (picked_after fontList rnd k) < n"
  shows "pickRandomFonts fontList n rnd = None"
proof (cases "pickRandomFonts fontList n rnd")
  case None
  then show ?thesis .
next
  case (Some y)
  then have "pickLoop fontList n rnd 0 [] = Some y" by (simp add: pickRandomFonts_def)
  from pickLoop_result [OF this] obtain k where "y = picked_after fontList rnd k" "n \<le> length y"
    by auto
  with assms [rule_format, of k] show ?thesis by simp
qed

section \<open>A retrieval that finds the file in the cache\<close>





section \<open>Failures of single items\<close>

text \<open>
  Claim C2. For every batch of families and weights, \<^verbatim>\<open>streamFontsAsZip\<close> answers with
  the archive, finalized, whose entries are those of the pairs whose attempt succeeded,
  in order, whatever failed in between (no resolution, no download, no directory, no
  write). Every pair is attempted once, in the order of the loops: the tally has one
  outcome for each pair, one style sheet request was sent for each pair of whose family
  a URL can be built (for the others the attempt fails before any request), a failed
  attempt left a warning, a successful one an entry. When no attempt succeeds the
  archive is finalized and empty. For a family with nine distinct weights of which one
  does not resolve while the other eight can be fetched, the archive has exactly eight
  entries: those of the eight, none named for the ninth. (The names are compared for
  weights that print in plain notation, as all integers below \<open>10 ^ 21\<close> do.)
\<close>

theorem batch_isolation:
  "streamFontsAsZip e now (map Some families) format weights w =
     (ZipStream (js ''fonts-'' @ format_str format @ js ''-'' @ decimal now @ js ''.zip'')
        \<lparr>entries = map (entry_of e format) (succeeded (fst (tally e format families weights w))),
         finalized = True\<rparr>,
      snd (tally e format families weights w)) \<and>
   map fst (fst (tally e format families weights w)) = List.product families weights \<and>
   filter is_manifest (requests (snd (tally e format families weights w))) =
     filter is_manifest (requests w) @
     map (\<lambda>p. manifest_request format (fst p) (snd p))
       (filter (\<lambda>p. well_formed (fst p)) (List.product families weights)) \<and>
   warnings (snd (tally e format families weights w)) =
     warnings w @ failed (fst (tally e format families weights w)) \<and>
   length (succeeded (fst (tally e format families weights w))) +
     length (failed (fst (tally e format families weights w))) =
     length families * length weights \<and>
   (succeeded (fst (tally e format families weights w)) = [] \<longrightarrow>
      fst (streamFontsAsZip e now (map Some families) format weights w) =
        ZipStream (js ''fonts-'' @ format_str format @ js ''-'' @ decimal now @ js ''.zip'')
          \<lparr>entries = [], finalized = True\<rparr>) \<and>
   (length weights = 9 \<and> distinct weights \<and> (\<forall>wt\<in>set weights. plain wt) \<and>
    bad \<in> set weights \<and> resolved_url e format family bad = None \<and>
    (\<forall>wt\<in>set weights. wt \<noteq> bad \<longrightarrow> can_fetch e family format wt) \<longrightarrow>
      (\<exists>a w'. streamFontsAsZip e now [Some family] format weights w =
           (ZipStream
              (js ''fonts-'' @ format_str format @ js ''-'' @ decimal now @ js ''.zip'')
              a, w') \<and>
         finalized a \<and> length (entries a) = 8 \<and>
         map snd (entries a) =
           map (\<lambda>wt. entryName e family wt format) (filter (\<lambda>wt. wt \<noteq> bad) weights) \<and>
         entryName e family bad format \<notin> snd ` set (entries a)))"
proof (intro conjI impI)
  let ?t = "tally e format families weights w"
  show "streamFontsAsZip e now (map Some families) format weights w =
     (ZipStream (js ''fonts-'' @ format_str format @ js ''-'' @ decimal now @ js ''.zip'')
        \<lparr>entries = map (entry_of e format) (succeeded (fst ?t)), finalized = True\<rparr>, snd ?t)"
    by (rule streamFontsAsZip_tally)
  show p: "map fst (fst ?t) = List.product families weights"
    by (simp add: tally_def attempts_pairs)
  show "filter is_manifest (requests (snd ?t)) =
     filter is_manifest (requests w) @
     map (\<lambda>p. manifest_request format (fst p) (snd p))
       (filter (\<lambda>p. well_formed (fst p)) (List.product families weights))"
    by (simp add: tally_def attempts_requests)
  show "warnings (snd ?t) = warnings w @ failed (fst ?t)"
    by (simp add: tally_def attempts_warnings)
  have "length (fst ?t) = length (List.product families weights)"
    using p by (metis length_map)
  then show "length (succeeded (fst ?t)) + length (failed (fst ?t)) =
     length families * length weights"
    by (simp add: succeeded_failed_length)
  show "fst (streamFontsAsZip e now (map Some families) format weights w) =
        ZipStream (js ''fonts-'' @ format_str format @ js ''-'' @ decimal now @ js ''.zip'')
          \<lparr>entries = [], finalized = True\<rparr>"
    if "succeeded (fst ?t) = []"
    using that by (simp add: streamFontsAsZip_tally)
next
  assume h: "length weights = 9 \<and> distinct weights \<and> (\<forall>wt\<in>set weights. plain wt) \<and>
    bad \<in> set weights \<and> resolved_url e format family bad = None \<and>
    (\<forall>wt\<in>set weights. wt \<noteq> bad \<longrightarrow> can_fetch e family format wt)"
  let ?ok = "\<lambda>wt. wt \<noteq> bad"
  let ?good = "filter ?ok weights"
  from h have "\<forall>wt\<in>set weights. if ?ok wt then can_fetch e family format wt
             else resolved_url e format family wt = None"
    by simp
  then have s: "succeeded (fst (tally e format [family] weights w)) = map (Pair family) ?good"
    unfolding tally_def using attempts_determined [of weights ?ok e family format w] by simp
  let ?a = "\<lparr>entries = map (entry_of e format) (map (Pair family) ?good), finalized = True\<rparr>"
  have "streamFontsAsZip e now [Some family] format weights w =
          (ZipStream
             (js ''fonts-'' @ format_str format @ js ''-'' @ decimal now @ js ''.zip'')
             ?a, snd (tally e format [family] weights w))"
    using streamFontsAsZip_tally [of e now "[family]" format weights w] s by simp
  moreover have "finalized ?a" by simp
  moreover have "length (entries ?a) = 8"
    using h filter_out_length [of weights bad] by simp
  moreover have n: "map snd (entries ?a) = map (\<lambda>wt. entryName e family wt format) ?good"
    by (simp add: entry_of_def comp_def)
  moreover have "entryName e family bad format \<notin> snd ` set (entries ?a)"
  proof
    assume "entryName e family bad format \<in> snd ` set (entries ?a)"
    then have "entryName e family bad format \<in> set (map snd (entries ?a))"
      by (simp only: set_map)
    then obtain wt where wt: "wt \<in> set ?good"
      "entryName e family bad format = entryName e family wt format"
      unfolding n by auto
    with h have "plain bad" "plain wt" by simp_all
    with wt(2) have "bad = wt" by (intro entryName_weight_inj)
    with wt(1) show False by simp
  qed
  ultimately show "\<exists>a w'. streamFontsAsZip e now [Some family] format weights w =
           (ZipStream
              (js ''fonts-'' @ format_str format @ js ''-'' @ decimal now @ js ''.zip'')
              a, w') \<and>
         finalized a \<and> length (entries a) = 8 \<and>
         map snd (entries a) =
           map (\<lambda>wt. entryName e family wt format) (filter (\<lambda>wt. wt \<noteq> bad) weights) \<and>
         entryName e family bad format \<notin> snd ` set (entries a)"
    by blast
qed

text \<open>
  Two instances in the example environment: Roboto with the nine default weights, where
  weight 300 does not resolve; and the family Lato, of which nothing resolves, together
  with a family whose name is a lone surrogate, for which nothing is requested.
\<close>

theorem batch_isolation_witness:
  "(\<exists>a w'. streamFontsAsZip example_env 0 [Some (js ''Roboto'')] Woff2 (map Num [100, 200, 300, 400, 500, 600, 700, 800, 900]) empty_world =
      (ZipStream (js ''fonts-woff2-0.zip'') a, w') \<and>
     finalized a \<and> length (entries a) = 8 \<and>
     map snd (entries a) =
       [js ''Roboto/Roboto-100.woff2'', js ''Roboto/Roboto-200.woff2'', js ''Roboto/Roboto-400.woff2'',
        js ''Roboto/Roboto-500.woff2'', js ''Roboto/Roboto-600.woff2'', js ''Roboto/Roboto-700.woff2'',
        js ''Roboto/Roboto-800.woff2'', js ''Roboto/Roboto-900.woff2''] \<and>
     js ''Roboto/Roboto-300.woff2'' \<notin> snd ` set (entries a)) \<and>
   fst (streamFontsAsZip example_env 0 (map Some [js ''Lato'', [55296]]) Woff2 [Num 400, Num 700]
     empty_world) =
     ZipStream (js ''fonts-woff2-0.zip'') \<lparr>entries = [], finalized = True\<rparr> \<and>
   filter is_manifest
     (requests (snd (tally example_env Woff2 [js ''Lato'', [55296]] [Num 400, Num 700] empty_world))) =
     [GetCss2 (js ''Lato'') (Num 400), GetCss2 (js ''Lato'') (Num 700)]"
proof -
  let ?ws = "[Num 100, Num 200, Num 300, Num 400, Num 500, Num 600, Num 700, Num 800, Num 900]"
  have pw: "map Num [100, 200, 300, 400, 500, 600, 700, 800, 900] = ?ws" by simp
  have 1: "length ?ws = 9" "distinct ?ws" "\<forall>wt\<in>set ?ws. plain wt" "Num 300 \<in> set ?ws"
    by simp_all
  have 2: "resolved_url example_env Woff2 (js ''Roboto'') (Num 300) = None"
    by (simp add: resolved_url_def example_env_def js_def)
  have u: "resolved_url example_env Woff2 (js ''Roboto'') (Num i) =
             Some (js ''https://fonts.gstatic.com/r.woff2'')" if "i \<noteq> 300" for i
    using that by (simp add: resolved_url_def example_env_def match_at_def js_def)
  have c: "can_fetch example_env (js ''Roboto'') Woff2 (Num i)" if "i \<noteq> 300" for i
    unfolding can_fetch_def u [OF that] by (simp add: example_env_def)
  have 3: "\<forall>wt\<in>set ?ws. wt \<noteq> Num 300 \<longrightarrow> can_fetch example_env (js ''Roboto'') Woff2 wt"
    by (simp add: c)
  have z: "js ''fonts-'' @ format_str Woff2 @ js ''-'' @ decimal 0 @ js ''.zip'' =
           js ''fonts-woff2-0.zip''"
    by (simp add: string_eval)
  have n: "map (\<lambda>wt. entryName example_env (js ''Roboto'') wt Woff2) (filter (\<lambda>wt. wt \<noteq> Num 300) ?ws) =
       [js ''Roboto/Roboto-100.woff2'', js ''Roboto/Roboto-200.woff2'', js ''Roboto/Roboto-400.woff2'',
        js ''Roboto/Roboto-500.woff2'', js ''Roboto/Roboto-600.woff2'', js ''Roboto/Roboto-700.woff2'',
        js ''Roboto/Roboto-800.woff2'', js ''Roboto/Roboto-900.woff2'']"
    by (simp add: string_eval)
  have b: "entryName example_env (js ''Roboto'') (Num 300) Woff2 = js ''Roboto/Roboto-300.woff2''"
    by (simp add: string_eval)
  have nine: "\<exists>a w'. streamFontsAsZip example_env 0 [Some (js ''Roboto'')] Woff2 (map Num [100, 200, 300, 400, 500, 600, 700, 800, 900])
        empty_world = (ZipStream (js ''fonts-woff2-0.zip'') a, w') \<and>
     finalized a \<and> length (entries a) = 8 \<and>
     map snd (entries a) =
       [js ''Roboto/Roboto-100.woff2'', js ''Roboto/Roboto-200.woff2'', js ''Roboto/Roboto-400.woff2'',
        js ''Roboto/Roboto-500.woff2'', js ''Roboto/Roboto-600.woff2'', js ''Roboto/Roboto-700.woff2'',
        js ''Roboto/Roboto-800.woff2'', js ''Roboto/Roboto-900.woff2''] \<and>
     js ''Roboto/Roboto-300.woff2'' \<notin> snd ` set (entries a)"
    using batch_isolation [where e = example_env and now = 0 and format = Woff2 and weights = ?ws
      and w = empty_world and bad = "Num 300" and family = "js ''Roboto''" and families = "[]"]
      1 2 3
    unfolding pw z n b by blast
  have 4: "succeeded (fst (tally example_env Woff2 [js ''Lato'', [55296]] [Num 400, Num 700]
       empty_world)) = []"
    by (simp add: tally_def succeeded_def world_eval string_eval)
  note t = batch_isolation [where e = example_env and now = 0 and format = Woff2
      and weights = "[Num 400, Num 700]" and w = empty_world and bad = NaN and family = "[]"
      and families = "[js ''Lato'', [55296]]"]
  from t 4
  have none: "fst (streamFontsAsZip example_env 0 (map Some [js ''Lato'', [55296]]) Woff2
       [Num 400, Num 700] empty_world) =
     ZipStream (js ''fonts-woff2-0.zip'') \<lparr>entries = [], finalized = True\<rparr>"
    unfolding z by blast
  have 5: "filter (\<lambda>p. well_formed (fst p))
             (List.product [js ''Lato'', [55296]] [Num 400, Num 700]) =
           [(js ''Lato'', Num 400), (js ''Lato'', Num 700)]"
    by (simp add: js_def)
  from t
  have "filter is_manifest
     (requests (snd (tally example_env Woff2 [js ''Lato'', [55296]] [Num 400, Num 700] empty_world))) =
     filter is_manifest (requests empty_world) @
     map (\<lambda>p. manifest_request Woff2 (fst p) (snd p))
       (filter (\<lambda>p. well_formed (fst p))
          (List.product [js ''Lato'', [55296]] [Num 400, Num 700]))"
    by blast
  then have reqs: "filter is_manifest
     (requests (snd (tally example_env Woff2 [js ''Lato'', [55296]] [Num 400, Num 700] empty_world))) =
     [GetCss2 (js ''Lato'') (Num 400), GetCss2 (js ''Lato'') (Num 700)]"
    unfolding 5 by (simp add: empty_world_def manifest_request_def)
  from nine none reqs show ?thesis by blast
qed

section \<open>The weights of a request\<close>

text \<open>
  Claim C3, as amended. Without the parameter, and with an empty one, the weights are
  the nine weights 100 to 900. A parameter that is a string is split at its commas and
  \<^verbatim>\<open>parseInt\<close> is applied to every piece: the list passed on has one number for each
  piece (one more than the parameter has commas), the numbers of the pieces in their
  order, so nothing is dropped and nothing is checked. As long as the parameter is a
  string or missing, it cannot fail a request: the status of the answer of either
  handler does not depend on it. A parameter that is an array or an object (a repeated
  parameter) has no \<^verbatim>\<open>split\<close>: both handlers answer a request with a valid format
  with status 500.
\<close>

theorem parseWeights_every_token:
  "parseWeights e Absent = Inr (map Num [100, 200, 300, 400, 500, 600, 700, 800, 900]) \<and>
   parseWeights e (Text []) = Inr (map Num [100, 200, 300, 400, 500, 600, 700, 800, 900]) \<and>
   (s \<noteq> [] \<longrightarrow>
      (\<exists>ws. parseWeights e (Text s) = Inr ws \<and> length ws = Suc (count_list s 44))) \<and>
   (tokens \<noteq> [] \<and> (\<forall>t\<in>set tokens. 44 \<notin> set t) \<and> join [44] tokens \<noteq> [] \<longrightarrow>
      parseWeights e (Text (join [44] tokens)) = Inr (map (parseInt e) tokens)) \<and>
   (\<not> structured x \<and> \<not> structured (q_weights q) \<longrightarrow>
      response_status (fst (download_by_name e fontList now (q\<lparr>q_weights := x\<rparr>) w)) =
        response_status (fst (download_by_name e fontList now q w)) \<and>
      map_option (\<lambda>r. response_status (fst r))
          (download_random e fontList rnd now (q\<lparr>q_weights := x\<rparr>) w) =
        map_option (\<lambda>r. response_status (fst r)) (download_random e fontList rnd now q w)) \<and>
   (structured x \<and> validateFormat (q_format q) = Inr format \<longrightarrow>
      download_by_name e fontList now (q\<lparr>q_weights := x\<rparr>) w = (ErrorJson 500 None, w) \<and>
      download_random e fontList rnd now (q\<lparr>q_weights := x\<rparr>) w =
        Some (ErrorJson 500 None, w))"
proof (intro conjI impI)
  show "parseWeights e Absent = Inr (map Num [100, 200, 300, 400, 500, 600, 700, 800, 900])"
    unfolding parseWeights_def using default_weights_parsed [of e] by simp
  show "parseWeights e (Text []) = Inr (map Num [100, 200, 300, 400, 500, 600, 700, 800, 900])"
    unfolding parseWeights_def using default_weights_parsed [of e] by simp
  show "\<exists>ws. parseWeights e (Text s) = Inr ws \<and> length ws = Suc (count_list s 44)"
    if "s \<noteq> []"
    using that by (simp add: parseWeights_def split_on_def length_split_on_from)
  show "parseWeights e (Text (join [44] tokens)) = Inr (map (parseInt e) tokens)"
    if "tokens \<noteq> [] \<and> (\<forall>t\<in>set tokens. 44 \<notin> set t) \<and> join [44] tokens \<noteq> []"
    using that split_on_join [of tokens 44] by (simp add: parseWeights_def)
next
  assume a: "\<not> structured x \<and> \<not> structured (q_weights q)"
  then show "response_status (fst (download_by_name e fontList now (q\<lparr>q_weights := x\<rparr>) w)) =
        response_status (fst (download_by_name e fontList now q w))"
    by (simp add: download_by_name_status split: sum.splits)
  from a show "map_option (\<lambda>r. response_status (fst r))
          (download_random e fontList rnd now (q\<lparr>q_weights := x\<rparr>) w) =
        map_option (\<lambda>r. response_status (fst r)) (download_random e fontList rnd now q w)"
    by (simp add: download_random_status split: sum.splits)
next
  assume a: "structured x \<and> validateFormat (q_format q) = Inr format"
  then show "download_by_name e fontList now (q\<lparr>q_weights := x\<rparr>) w = (ErrorJson 500 None, w)"
    by (simp add: download_by_name_def parseWeights_structured)
  from a show "download_random e fontList rnd now (q\<lparr>q_weights := x\<rparr>) w =
        Some (ErrorJson 500 None, w)"
    by (simp add: download_random_def parseWeights_structured Let_def)
qed

text \<open>
  Instances: a parameter of three pieces yields three numbers, those of its pieces; the
  request for Roboto has the same status with that parameter as with its own; and with
  a repeated parameter it is answered with status 500.
\<close>

theorem parseWeights_every_token_witness:
  "(\<exists>ws. parseWeights example_env (Text (js ''400,abc,150'')) = Inr ws \<and> length ws = 3) \<and>
   parseWeights example_env (Text (join [44] [js ''400'', js ''abc'', js ''150''])) =
     Inr (map (parseInt example_env) [js ''400'', js ''abc'', js ''150'']) \<and>
   response_status (fst (download_by_name example_env [js ''Roboto''] 0
       (roboto_query\<lparr>q_weights := Text (js ''400,abc,150'')\<rparr>) empty_world)) =
     response_status (fst (download_by_name example_env [js ''Roboto''] 0 roboto_query empty_world)) \<and>
   download_by_name example_env [js ''Roboto''] 0
       (roboto_query\<lparr>q_weights := Structured (js ''400,700'')\<rparr>) empty_world =
     (ErrorJson 500 None, empty_world)"
proof -
  let ?s = "js ''400,abc,150''" and ?ts = "[js ''400'', js ''abc'', js ''150'']"
  have ne: "?s \<noteq> []" by (simp add: js_def)
  have cnt: "Suc (count_list ?s 44) = 3" by (simp add: js_def)
  have tk: "?ts \<noteq> [] \<and> (\<forall>t\<in>set ?ts. 44 \<notin> set t) \<and> join [44] ?ts \<noteq> []"
    by (simp add: js_def)
  have st: "\<not> structured (Text ?s) \<and> \<not> structured (q_weights roboto_query)"
    by (simp add: roboto_query_def)
  have f: "validateFormat (q_format roboto_query) = Inr Woff2"
    by (simp add: roboto_query_def validateFormat_def js_def)
  note t = parseWeights_every_token [where e = example_env and fontList = "[js ''Roboto'']"
      and now = 0 and q = roboto_query and w = empty_world and rnd = "\<lambda>i. 0" and s = ?s
      and tokens = ?ts and format = Woff2]
  from t [where x = "Text ?s"] ne
  have 1: "\<exists>ws. parseWeights example_env (Text ?s) = Inr ws \<and> length ws = Suc (count_list ?s 44)"
    by blast
  from t [where x = "Text ?s"] tk
  have 2: "parseWeights example_env (Text (join [44] ?ts)) = Inr (map (parseInt example_env) ?ts)"
    by blast
  from t [where x = "Text ?s"] st
  have 3: "response_status (fst (download_by_name example_env [js ''Roboto''] 0
       (roboto_query\<lparr>q_weights := Text ?s\<rparr>) empty_world)) =
     response_status (fst (download_by_name example_env [js ''Roboto''] 0 roboto_query empty_world))"
    by blast
  have "structured (Structured (js ''400,700''))" by simp
  with t [where x = "Structured (js ''400,700'')"] f
  have 4: "download_by_name example_env [js ''Roboto''] 0
       (roboto_query\<lparr>q_weights := Structured (js ''400,700'')\<rparr>) empty_world =
     (ErrorJson 500 None, empty_world)"
    by blast
  from 1 [unfolded cnt] 2 3 4 show ?thesis by blast
qed

text \<open>
  Claim C3 as stated fails: the piece \<^verbatim>\<open>abc\<close> is passed on as \<^verbatim>\<open>NaN\<close> and the
  piece \<^verbatim>\<open>150\<close> as 150, and neither is a valid weight; and the request
  \<^verbatim>\<open>?format=woff2&weights=400&weights=700\<close> for Roboto, whose weights arrive as
  an array, is answered with status 500.
\<close>

theorem parseWeights_keeps_invalid:
  "parseWeights example_env (Text (js ''400,abc,150'')) = Inr [Num 400, NaN, Num 150] \<and>
   \<not> valid_weight NaN \<and> \<not> valid_weight (Num 150) \<and>
   download_by_name example_env [js ''Roboto''] 0
       (roboto_query\<lparr>q_weights := Structured (js ''400,700'')\<rparr>) empty_world =
     (ErrorJson 500 None, empty_world)"
  by (simp add: parseWeights_def download_by_name_def roboto_query_def validateFormat_def
      string_eval)

section \<open>Cache paths and entry names\<close>




section \<open>Choosing families at random: termination and result\<close>

text \<open>
  Claim C5. Let the font list have no duplicates, let \<open>n\<close> be at most its size, and let
  the draws of \<^verbatim>\<open>Math.random\<close> be a sequence of indices of the list in which every
  index occurs at some point (as it does, with probability one, in a sequence of
  independent uniform draws). Then \<^verbatim>\<open>pickRandomFonts\<close> returns, and it returns exactly
  \<open>n\<close> distinct elements, each a member of the list. When \<open>n\<close> exceeds the size of the
  list, it does not return, whatever the draws.
\<close>

theorem pickRandomFonts_distinct_members:
  assumes "distinct fontList" and "\<forall>i. rnd i < length fontList"
  shows "(n \<le> length fontList \<and> (\<forall>j<length fontList. \<exists>i. rnd i = j) \<longrightarrow>
           (\<exists>picked. pickRandomFonts fontList n rnd = Some (map Some picked) \<and>
              length picked = n \<and> distinct picked \<and> set picked \<subseteq> set fontList)) \<and>
         (length fontList < n \<longrightarrow> pickRandomFonts fontList n rnd = None)"
proof (intro impI conjI)
  have card: "length (picked_after fontList rnd k) = card (rnd ` {..<k})" for k
    using assms by (intro picked_after_card) simp_all
  show "\<exists>picked. pickRandomFonts fontList n rnd = Some (map Some picked) \<and> length picked = n \<and>
           distinct picked \<and> set picked \<subseteq> set fontList"
    if h: "n \<le> length fontList \<and> (\<forall>j<length fontList. \<exists>i. rnd i = j)"
  proof -
    from h have "\<forall>j\<in>{..<length fontList}. \<exists>i. rnd i = j" by simp
    then obtain f where f: "\<forall>j\<in>{..<length fontList}. rnd (f j) = j" by metis
    define k where "k = Suc (Max (insert 0 (f ` {..<length fontList})))"
    have "{..<length fontList} \<subseteq> rnd ` {..<k}"
    proof
      fix j assume j: "j \<in> {..<length fontList}"
      then have "f j \<le> Max (insert 0 (f ` {..<length fontList}))" by (intro Max_ge) simp_all
      then have "f j \<in> {..<k}" by (simp add: k_def)
      moreover from f j have "rnd (f j) = j" by simp
      ultimately show "j \<in> rnd ` {..<k}" by force
    qed
    then have "card {..<length fontList} \<le> card (rnd ` {..<k})" by (intro card_mono) simp_all
    with h have "n \<le> length (picked_after fontList rnd k)" by (simp add: card)
    then obtain m where m: "pickRandomFonts fontList n rnd = Some (picked_after fontList rnd m)"
      "length (picked_after fontList rnd m) = n"
      using pickRandomFonts_returns by blast
    from assms obtain picked where p: "picked_after fontList rnd m = map Some picked"
      "set picked \<subseteq> set fontList"
      using picked_after_members [of rnd fontList m] by auto
    from picked_after_distinct [of fontList rnd m] p have "distinct picked"
      by (simp add: distinct_map)
    with m p show ?thesis by auto
  qed
  show "pickRandomFonts fontList n rnd = None" if "length fontList < n"
  proof (rule pickRandomFonts_None, rule allI)
    fix k
    from assms have "rnd ` {..<k} \<subseteq> {..<length fontList}" by auto
    then have "card (rnd ` {..<k}) \<le> card {..<length fontList}" by (intro card_mono) simp_all
    with that show "length (picked_after fontList rnd k) < n" by (simp add: card)
  qed
qed

text \<open>
  Instances: two families and draws that alternate between the two indices, first with
  \<open>n = 2\<close>, then with \<open>n = 3\<close>.
\<close>

theorem pickRandomFonts_distinct_members_witness:
  "(\<exists>picked. pickRandomFonts [js ''Roboto'', js ''Lato''] 2 (\<lambda>i. i mod 2) = Some (map Some picked) \<and>
     length picked = 2 \<and> distinct picked \<and> set picked \<subseteq> set [js ''Roboto'', js ''Lato'']) \<and>
   pickRandomFonts [js ''Roboto'', js ''Lato''] 3 (\<lambda>i. i mod 2) = None"
proof -
  have 1: "distinct [js ''Roboto'', js ''Lato'']" by (simp add: js_def)
  have "i mod 2 < (2::nat)" for i :: nat by simp
  then have 2: "\<forall>i. i mod 2 < length [js ''Roboto'', js ''Lato'']"
    by (simp add: numeral_2_eq_2)
  have 3: "\<forall>j<length [js ''Roboto'', js ''Lato'']. \<exists>i::nat. i mod 2 = j"
  proof (intro allI impI)
    fix j :: nat assume "j < length [js ''Roboto'', js ''Lato'']"
    then have "j mod 2 = j" by simp
    then show "\<exists>i::nat. i mod 2 = j" by (rule exI)
  qed
  have 4: "(2::nat) \<le> length [js ''Roboto'', js ''Lato'']" by simp
  have 5: "length [js ''Roboto'', js ''Lato''] < 3" by simp
  from pickRandomFonts_distinct_members [OF 1 2, where n = 2] 3 4
  have a: "\<exists>picked. pickRandomFonts [js ''Roboto'', js ''Lato''] 2 (\<lambda>i. i mod 2) =
      Some (map Some picked) \<and> length picked = 2 \<and> distinct picked \<and>
      set picked \<subseteq> set [js ''Roboto'', js ''Lato'']"
    by blast
  from pickRandomFonts_distinct_members [OF 1 2, where n = 3] 5
  have b: "pickRandomFonts [js ''Roboto'', js ''Lato''] 3 (\<lambda>i. i mod 2) = None"
    by blast
  from a b show ?thesis by (rule conjI)
qed

section \<open>Normalization of family names\<close>

text \<open>
  Claim C6, as amended. Normalizing a second time changes nothing, for every name on
  which the normalization is defined and in which the first letter of each word has a
  stable upper case: one code unit, which is its own upper case. (This holds for every
  runtime whose case conversion has the properties \<open>case_mapping\<close>, as Unicode's has.)
  And \<^verbatim>\<open>roboto condensed\<close> is normalized to \<^verbatim>\<open>Roboto Condensed\<close> (by every runtime
  that treats the letters of U+0000 to U+00FF as Unicode does).
\<close>

theorem normalizeName_idempotent:
  assumes "case_mapping e"
  shows "(normalizeName e x = Inr y \<and> (\<forall>w\<in>set (split_ws (trim x)). stable_upper e (hd w))
            \<longrightarrow> normalizeName e y = Inr y) \<and>
         (latin1_case e \<longrightarrow>
            normalizeName e (js ''roboto condensed'') = Inr (js ''Roboto Condensed''))"
proof (intro conjI impI)
  assume a: "normalizeName e x = Inr y \<and> (\<forall>w\<in>set (split_ws (trim x)). stable_upper e (hd w))"
  let ?ws = "split_ws (trim x)"
  from a have w: "?ws \<noteq> []" "\<forall>w\<in>set ?ws. word_ok w" "y = join [32] (map (cap e) ?ws)"
    using normalizeName_words [of e x y] by simp_all
  have idem: "cap e (cap e w) = cap e w" if "w \<in> set ?ws" for w
  proof -
    from that w have "w \<noteq> []" by (auto simp: word_ok_def)
    moreover from that a have "stable_upper e (hd w)" by blast
    ultimately show ?thesis using assms by (intro cap_idem)
  qed
  from w assms have "normalizeName e y = Inr (join [32] (map (cap e) (map (cap e) ?ws)))"
    by (simp add: normalizeName_of_words cap_word_ok)
  also have "map (cap e) (map (cap e) ?ws) = map (cap e) ?ws" using idem by simp
  finally show "normalizeName e y = Inr y" using w by simp
next
  assume l: "latin1_case e"
  have u: "toUpperCase e c = latin1_upper c" if "c < 256" for c
    using l that by (simp add: latin1_case_def)
  have lo: "toLowerCase e s = map latin1_lower s" if "\<forall>c\<in>set s. c < 256" for s
    using l that unfolding latin1_case_def by blast
  have r: "cap e (js ''roboto'') = js ''Roboto''"
  proof -
    have "cap e (js ''roboto'') = toUpperCase e 114 @ toLowerCase e (js ''oboto'')"
      by (simp add: cap_def js_def)
    also have "toUpperCase e 114 = latin1_upper 114" by (rule u) simp
    also have "toLowerCase e (js ''oboto'') = map latin1_lower (js ''oboto'')"
      by (rule lo) (simp add: js_def)
    finally show ?thesis by (simp add: js_def latin1_upper_def latin1_lower_def)
  qed
  have c: "cap e (js ''condensed'') = js ''Condensed''"
  proof -
    have "cap e (js ''condensed'') = toUpperCase e 99 @ toLowerCase e (js ''ondensed'')"
      by (simp add: cap_def js_def)
    also have "toUpperCase e 99 = latin1_upper 99" by (rule u) simp
    also have "toLowerCase e (js ''ondensed'') = map latin1_lower (js ''ondensed'')"
      by (rule lo) (simp add: js_def)
    finally show ?thesis by (simp add: js_def latin1_upper_def latin1_lower_def)
  qed
  have ok: "[js ''roboto'', js ''condensed''] \<noteq> []"
    "\<forall>w\<in>set [js ''roboto'', js ''condensed'']. word_ok w"
    by (simp_all add: word_ok_def js_def isWhiteSpace_def)
  have "normalizeName e (join [32] [js ''roboto'', js ''condensed'']) =
          Inr (join [32] (map (cap e) [js ''roboto'', js ''condensed'']))"
    using ok by (rule normalizeName_of_words)
  then show "normalizeName e (js ''roboto condensed'') = Inr (js ''Roboto Condensed'')"
    by (simp add: r c) (simp add: js_def)
qed


text \<open>
  An instance of the theorem: \<^verbatim>\<open>"open  sans "\<close> is normalized to \<^verbatim>\<open>Open Sans\<close>,
  which is normalized to itself.
\<close>

theorem normalizeName_idempotent_witness:
  "normalizeName example_env (js ''open  sans '') = Inr (js ''Open Sans'') \<and>
   normalizeName example_env (js ''Open Sans'') = Inr (js ''Open Sans'') \<and>
   normalizeName example_env (js ''roboto condensed'') = Inr (js ''Roboto Condensed'')"
proof -
  have n: "normalizeName example_env (js ''open  sans '') = Inr (js ''Open Sans'')"
    by (simp add: example_env_def string_eval)
  have s: "\<forall>w\<in>set (split_ws (trim (js ''open  sans ''))). stable_upper example_env (hd w)"
    by (simp add: stable_upper_def example_env_def string_eval)
  note t = normalizeName_idempotent [OF case_mapping_example,
      of "js ''open  sans ''" "js ''Open Sans''"]
  from t n s have 1: "normalizeName example_env (js ''Open Sans'') = Inr (js ''Open Sans'')"
    by blast
  from t latin1_case_example
  have 2: "normalizeName example_env (js ''roboto condensed'') = Inr (js ''Roboto Condensed'')"
    by blast
  from n 1 2 show ?thesis by blast
qed


text \<open>
  Claim C6 as stated fails. The upper case of U+00DF is the two letters \<^verbatim>\<open>SS\<close>, so
  the one-letter name U+00DF is normalized to \<^verbatim>\<open>SS\<close>, and \<^verbatim>\<open>SS\<close> is normalized to
  \<^verbatim>\<open>Ss\<close>.
\<close>

theorem normalizeName_not_idempotent:
  "normalizeName example_env [223] = Inr (js ''SS'') \<and>
   normalizeName example_env (js ''SS'') = Inr (js ''Ss'') \<and>
   js ''Ss'' \<noteq> js ''SS''"
  by (simp add: example_env_def string_eval)

section \<open>The handler of a named family\<close>

text \<open>
  Claim C7, as amended. Let the weights parameter be a string or missing. Then
  \<^verbatim>\<open>/download-by-name\<close> answers 400 when the name is missing (or empty). When the
  format is valid and the name is a string that has a normalized form, it answers 404
  exactly when that form is not in the catalog, and then nothing has happened: the world
  is as it was (no request was sent, no archive begun). When the form is in the catalog,
  and its hyphenated form may stand in a response header, the answer is the finalized
  archive whose entries are those of the weights whose attempt succeeded (URL resolved,
  file cached), in the order of the request; when it may not stand in a header (it has a
  character above U+00FF or a control character), \<^verbatim>\<open>setHeader\<close> throws and the answer
  is 500, the world as it was. A request with a valid format whose weights parameter is
  an array or an object is answered with status 500 whatever its name, and so is one
  whose name is an array or an object.
\<close>

theorem download_by_name_outcomes:
  "(\<not> structured (q_weights q) \<and> (q_name q = Absent \<or> q_name q = Text []) \<longrightarrow>
      (\<exists>msg. download_by_name e fontList now q w = (ErrorJson 400 (Some msg), w))) \<and>
   (validateFormat (q_format q) = Inr format \<and> parseWeights e (q_weights q) = Inr weights \<and>
    q_name q = Text name \<and> normalizeName e name = Inr normalized \<longrightarrow>
      ((\<exists>msg. fst (download_by_name e fontList now q w) = ErrorJson 404 msg) \<longleftrightarrow>
         normalized \<notin> set fontList) \<and>
      (normalized \<notin> set fontList \<longrightarrow> snd (download_by_name e fontList now q w) = w) \<and>
      (normalized \<in> set fontList \<and> list_all header_char (safeFamily normalized) \<longrightarrow>
         download_by_name e fontList now q w =
           (ZipStream (zipName normalized format now)
              \<lparr>entries =
                 map (entry_of e format)
                   (succeeded (fst (attempts e format (map (Pair normalized) weights) w))),
               finalized = True\<rparr>,
            snd (attempts e format (map (Pair normalized) weights) w))) \<and>
      (normalized \<in> set fontList \<and> \<not> list_all header_char (safeFamily normalized) \<longrightarrow>
         download_by_name e fontList now q w = (ErrorJson 500 None, w))) \<and>
   (validateFormat (q_format q) = Inr format \<and>
    (structured (q_weights q) \<or> structured (q_name q)) \<longrightarrow>
      download_by_name e fontList now q w = (ErrorJson 500 None, w))"
proof (intro conjI impI)
  assume a: "\<not> structured (q_weights q) \<and> (q_name q = Absent \<or> q_name q = Text [])"
  then obtain ws where "parseWeights e (q_weights q) = Inr ws" using parseWeights_Inr by blast
  with a show "\<exists>msg. download_by_name e fontList now q w = (ErrorJson 400 (Some msg), w)"
    by (auto simp: download_by_name_def validateFormat_def)
next
  assume a: "validateFormat (q_format q) = Inr format \<and>
    parseWeights e (q_weights q) = Inr weights \<and>
    q_name q = Text name \<and> normalizeName e name = Inr normalized"
  then have ne: "name \<noteq> []" using normalizeName_nonempty by blast
  show "(\<exists>msg. fst (download_by_name e fontList now q w) = ErrorJson 404 msg) \<longleftrightarrow>
         normalized \<notin> set fontList"
    using a ne by (simp add: download_by_name_def Let_def)
  show "snd (download_by_name e fontList now q w) = w" if "normalized \<notin> set fontList"
    using a ne that by (simp add: download_by_name_def)
  show "download_by_name e fontList now q w =
           (ZipStream (zipName normalized format now)
              \<lparr>entries =
                 map (entry_of e format)
                   (succeeded (fst (attempts e format (map (Pair normalized) weights) w))),
               finalized = True\<rparr>,
            snd (attempts e format (map (Pair normalized) weights) w))"
    if "normalized \<in> set fontList \<and> list_all header_char (safeFamily normalized)"
    using a ne that
    by (simp add: download_by_name_def Let_def addWeights_attempts new_archive_def header_value)
  show "download_by_name e fontList now q w = (ErrorJson 500 None, w)"
    if "normalized \<in> set fontList \<and> \<not> list_all header_char (safeFamily normalized)"
    using a ne that by (simp add: download_by_name_def header_value)
next
  assume a: "validateFormat (q_format q) = Inr format \<and>
    (structured (q_weights q) \<or> structured (q_name q))"
  show "download_by_name e fontList now q w = (ErrorJson 500 None, w)"
  proof (cases "structured (q_weights q)")
    case True
    with a show ?thesis by (simp add: download_by_name_def parseWeights_structured)
  next
    case False
    then obtain ws where ws: "parseWeights e (q_weights q) = Inr ws"
      using parseWeights_Inr by blast
    from a False obtain t where "q_name q = Structured t" by (cases "q_name q") simp_all
    with a ws show ?thesis by (simp add: download_by_name_def)
  qed
qed


text \<open>
  Instances in the example environment: the name \<^verbatim>\<open>roboto\<close> with the weights 300 and
  400, of which weight 300 does not resolve, first with Roboto in the catalog (the
  archive holds the entry of weight 400), then with a catalog that only has Lato (404);
  a request without a name (400); and a request whose weights are an array (500).
\<close>

theorem download_by_name_outcomes_witness:
  "fst (download_by_name example_env [js ''Roboto''] 0 roboto_query empty_world) =
     ZipStream (js ''Roboto-woff2-0.zip'')
       \<lparr>entries = [(js ''/cache/Roboto/Roboto-400.woff2'', js ''Roboto/Roboto-400.woff2'')],
        finalized = True\<rparr> \<and>
   \<not> (\<exists>msg. fst (download_by_name example_env [js ''Roboto''] 0 roboto_query empty_world) =
          ErrorJson 404 msg) \<and>
   (\<exists>msg. fst (download_by_name example_env [js ''Lato''] 0 roboto_query empty_world) =
          ErrorJson 404 msg) \<and>
   snd (download_by_name example_env [js ''Lato''] 0 roboto_query empty_world) = empty_world \<and>
   (\<exists>msg. download_by_name example_env [js ''Roboto''] 0 nameless_query empty_world =
          (ErrorJson 400 (Some msg), empty_world)) \<and>
   download_by_name example_env [js ''Roboto''] 0 repeated_weights_query empty_world =
     (ErrorJson 500 None, empty_world)"
proof -
  have f: "validateFormat (q_format roboto_query) = Inr Woff2"
    by (simp add: roboto_query_def validateFormat_def js_def)
  have n: "q_name roboto_query = Text (js ''roboto'')" by (simp add: roboto_query_def)
  have m: "normalizeName example_env (js ''roboto'') = Inr (js ''Roboto'')"
    by (simp add: example_env_def string_eval)
  have i: "js ''Roboto'' \<in> set [js ''Roboto'']" by simp
  have j: "js ''Roboto'' \<notin> set [js ''Lato'']" by (simp add: js_def)
  have h: "list_all header_char (safeFamily (js ''Roboto''))"
    by (simp add: header_char_def string_eval)
  have p: "parseWeights example_env (q_weights roboto_query) = Inr [Num 300, Num 400]"
    by (simp add: roboto_query_def parseWeights_def string_eval)
  have a: "succeeded (fst (attempts example_env Woff2
             (map (Pair (js ''Roboto'')) [Num 300, Num 400]) empty_world)) =
           [(js ''Roboto'', Num 400)]"
    by (simp add: entry_of_def succeeded_def world_eval string_eval)
  have e: "entry_of example_env Woff2 (js ''Roboto'', Num 400) =
           (js ''/cache/Roboto/Roboto-400.woff2'', js ''Roboto/Roboto-400.woff2'')"
    by (simp add: entry_of_def succeeded_def world_eval string_eval)
  have z: "zipName (js ''Roboto'') Woff2 0 = js ''Roboto-woff2-0.zip''"
    by (simp add: zipName_def string_eval)
  from download_by_name_outcomes
    [where q = roboto_query and e = example_env and fontList = "[js ''Roboto'']" and now = 0
      and w = empty_world and format = Woff2 and name = "js ''roboto''"
      and normalized = "js ''Roboto''" and weights = "[Num 300, Num 400]"]
    f n m i h p
  have "download_by_name example_env [js ''Roboto''] 0 roboto_query empty_world =
    (ZipStream (zipName (js ''Roboto'') Woff2 0)
       \<lparr>entries = map (entry_of example_env Woff2)
          (succeeded (fst (attempts example_env Woff2
             (map (Pair (js ''Roboto'')) [Num 300, Num 400]) empty_world))),
        finalized = True\<rparr>,
     snd (attempts example_env Woff2
            (map (Pair (js ''Roboto'')) [Num 300, Num 400]) empty_world))"
    by blast
  then have found: "fst (download_by_name example_env [js ''Roboto''] 0 roboto_query empty_world) =
     ZipStream (js ''Roboto-woff2-0.zip'')
       \<lparr>entries = [(js ''/cache/Roboto/Roboto-400.woff2'', js ''Roboto/Roboto-400.woff2'')],
        finalized = True\<rparr>"
    unfolding a z by (simp add: e)
  from download_by_name_outcomes
    [where q = roboto_query and e = example_env and fontList = "[js ''Lato'']" and now = 0
      and w = empty_world and format = Woff2 and name = "js ''roboto''"
      and normalized = "js ''Roboto''" and weights = "[Num 300, Num 400]"]
    f n m j p
  have missing: "\<exists>msg. fst (download_by_name example_env [js ''Lato''] 0 roboto_query empty_world) =
          ErrorJson 404 msg"
    "snd (download_by_name example_env [js ''Lato''] 0 roboto_query empty_world) = empty_world"
    by blast+
  have "\<not> structured (q_weights nameless_query) \<and> q_name nameless_query = Absent"
    by (simp add: nameless_query_def)
  with download_by_name_outcomes
    [where q = nameless_query and e = example_env and fontList = "[js ''Roboto'']" and now = 0
      and w = empty_world and format = Woff2 and name = "[]" and normalized = "[]"
      and weights = "[]"]
  have nameless: "\<exists>msg. download_by_name example_env [js ''Roboto''] 0 nameless_query empty_world =
          (ErrorJson 400 (Some msg), empty_world)"
    by blast
  have "validateFormat (q_format repeated_weights_query) = Inr Woff2 \<and>
        structured (q_weights repeated_weights_query)"
    by (simp add: repeated_weights_query_def validateFormat_def js_def)
  with download_by_name_outcomes
    [where q = repeated_weights_query and e = example_env and fontList = "[js ''Roboto'']"
      and now = 0 and w = empty_world and format = Woff2 and name = "[]" and normalized = "[]"
      and weights = "[]"]
  have repeated: "download_by_name example_env [js ''Roboto''] 0 repeated_weights_query
       empty_world = (ErrorJson 500 None, empty_world)"
    by blast
  from found missing nameless repeated show ?thesis by simp
qed

text \<open>
  Claim C7 as stated fails: the request \<^verbatim>\<open>?format=woff2&weights=400&weights=700\<close>
  has no name, and it is answered with status 500, not 400.
\<close>

theorem missing_name_status_500:
  "q_name repeated_weights_query = Absent \<and>
   download_by_name example_env [js ''Roboto''] 0 repeated_weights_query empty_world =
     (ErrorJson 500 None, empty_world) \<and>
   response_status (fst (download_by_name example_env [js ''Roboto''] 0 repeated_weights_query
     empty_world)) \<noteq> 400"
  by (simp add: repeated_weights_query_def download_by_name_def validateFormat_def
      parseWeights_def js_def)

section \<open>Validation of the format\<close>

text \<open>
  Claim C8. On both endpoints a format that is neither \<^verbatim>\<open>woff2\<close> nor \<^verbatim>\<open>ttf\<close> (or
  no format at all) is answered with status 400 and the message of
  \<^verbatim>\<open>validateFormat\<close>, and the world is unchanged: in particular no request has been
  sent to the network.
\<close>

theorem invalid_format_no_network:
  assumes "q_format q \<noteq> Text (js ''woff2'')" and "q_format q \<noteq> Text (js ''ttf'')"
  shows "download_random e fontList rnd now q w =
           Some (ErrorJson 400 (Some (js ''Invalid format. Must be woff2 or ttf.'')), w) \<and>
         download_by_name e fontList now q w =
           (ErrorJson 400 (Some (js ''Invalid format. Must be woff2 or ttf.'')), w) \<and>
         requests (snd (the (download_random e fontList rnd now q w))) = requests w \<and>
         requests (snd (download_by_name e fontList now q w)) = requests w"
  using assms by (simp add: download_random_def download_by_name_def validateFormat_Inl)

text \<open>An instance: the format \<^verbatim>\<open>otf\<close> in the example environment.\<close>

theorem invalid_format_no_network_witness:
  "download_random example_env [js ''Roboto''] (\<lambda>i. 0) 0 otf_query empty_world =
     Some (ErrorJson 400 (Some (js ''Invalid format. Must be woff2 or ttf.'')), empty_world) \<and>
   download_by_name example_env [js ''Roboto''] 0 otf_query empty_world =
     (ErrorJson 400 (Some (js ''Invalid format. Must be woff2 or ttf.'')), empty_world)"
proof -
  have "q_format otf_query \<noteq> Text (js ''woff2'')" "q_format otf_query \<noteq> Text (js ''ttf'')"
    by (simp_all add: otf_query_def js_def)
  from invalid_format_no_network [OF this] show ?thesis by blast
qed

section \<open>Two fills of one key\<close>

text \<open>
  Claim C9, as amended. Let two fills of the same key overlap: both look for the file
  before either writes it, so both miss and both send the request for the font file.
  Each then persists its bytes with one \<^verbatim>\<open>writeFileSync\<close> on the final path: the log of
  file operations holds these two writes (after the \<^verbatim>\<open>mkdirSync\<close> of a missing
  directory) and nothing else, so no temporary file is written and nothing is renamed.
  A write that succeeds leaves exactly the bytes just written, those of one fill. A
  write that fails may leave a part of them at the final path, and whatever file is at
  the path after the two fills is what a later fill finds and returns, changing
  nothing. The pieces of the two fills are taken in the order begin, begin, finish,
  finish; either fill may be the one that finishes first. (The file of a key is taken
  not to be its family directory, as is the case for the paths of \<^verbatim>\<open>path.join\<close>.)
\<close>

theorem overlapping_fills:
  assumes "fs w (fontPath e family weight format) = None"
    and "\<not> mkdir_fails e (fontDir e family)"
    and "fontPath e family weight format \<noteq> fontDir e family"
  shows "\<exists>w1 w2 w3 w4 rA rB.
      downloadAndSaveFont_begin e family weight urlA format w =
        (Inr (Miss (fontPath e family weight format)), w1) \<and>
      downloadAndSaveFont_begin e family weight urlB format w1 =
        (Inr (Miss (fontPath e family weight format)), w2) \<and>
      downloadAndSaveFont_finish e (fontPath e family weight format) (Some dataA) w2 = (rA, w3) \<and>
      downloadAndSaveFont_finish e (fontPath e family weight format) (Some dataB) w3 = (rB, w4) \<and>
      rA = (if write_result e (fontPath e family weight format) dataA = WriteOk
            then Inr (fontPath e family weight format) else Inl WriteFailed) \<and>
      rB = (if write_result e (fontPath e family weight format) dataB = WriteOk
            then Inr (fontPath e family weight format) else Inl WriteFailed) \<and>
      fs w3 (fontPath e family weight format) =
        written e (fontPath e family weight format) dataA None \<and>
      fs w4 (fontPath e family weight format) =
        written e (fontPath e family weight format) dataB
          (fs w3 (fontPath e family weight format)) \<and>
      (write_result e (fontPath e family weight format) dataB = WriteOk \<longrightarrow>
         fs w4 (fontPath e family weight format) = Some (File dataB)) \<and>
      (\<forall>left. write_result e (fontPath e family weight format) dataB = WriteError (Some left) \<longrightarrow>
         fs w4 (fontPath e family weight format) = Some (File left)) \<and>
      requests w4 = requests w @ [GetAsset urlA, GetAsset urlB] \<and>
      fs_ops w4 =
        fs_ops w @
        (if fs w (fontDir e family) = None then [MkdirSync (fontDir e family)] else []) @
        [WriteFileSync (fontPath e family weight format) dataA,
         WriteFileSync (fontPath e family weight format) dataB] \<and>
      (fs w4 (fontPath e family weight format) \<noteq> None \<longrightarrow>
         downloadAndSaveFont e family weight urlA format w4 =
           (Inr (fontPath e family weight format), w4))"
proof -
  let ?p = "fontPath e family weight format" and ?d = "fontDir e family"
  define w1 where "w1 = snd (downloadAndSaveFont_begin e family weight urlA format w)"
  define w2 where "w2 = snd (downloadAndSaveFont_begin e family weight urlB format w1)"
  define w3 where "w3 = snd (downloadAndSaveFont_finish e ?p (Some dataA) w2)"
  define w4 where "w4 = snd (downloadAndSaveFont_finish e ?p (Some dataB) w3)"
  have b1: "downloadAndSaveFont_begin e family weight urlA format w = (Inr (Miss ?p), w1)"
    and f1: "fs w1 ?p = None" "fs w1 ?d \<noteq> None"
    and r1: "requests w1 = requests w @ [GetAsset urlA]"
    and o1: "fs_ops w1 = fs_ops w @ (if fs w ?d = None then [MkdirSync ?d] else [])"
    unfolding w1_def using assms
    by (simp_all add: downloadAndSaveFont_begin_def existsSync_def mkdirSync_def Let_def)
  have b2: "downloadAndSaveFont_begin e family weight urlB format w1 = (Inr (Miss ?p), w2)"
    and f2: "fs w2 ?p = None" "fs w2 ?d \<noteq> None"
    and r2: "requests w2 = requests w1 @ [GetAsset urlB]"
    and o2: "fs_ops w2 = fs_ops w1"
    unfolding w2_def using f1
    by (simp_all add: downloadAndSaveFont_begin_def existsSync_def Let_def)
  have step: "fst (downloadAndSaveFont_finish e ?p (Some data) v) =
        (if write_result e ?p data = WriteOk then Inr ?p else Inl WriteFailed) \<and>
      fs (snd (downloadAndSaveFont_finish e ?p (Some data) v)) ?p =
        written e ?p data (fs v ?p) \<and>
      fs (snd (downloadAndSaveFont_finish e ?p (Some data) v)) ?d = fs v ?d \<and>
      requests (snd (downloadAndSaveFont_finish e ?p (Some data) v)) = requests v \<and>
      fs_ops (snd (downloadAndSaveFont_finish e ?p (Some data) v)) =
        fs_ops v @ [WriteFileSync ?p data]"
    for data v
    using assms(3)
    by (simp add: downloadAndSaveFont_finish_def writeFileSync_def written_def Let_def
        split: write_outcome.splits option.splits)
  note s3 = step [of dataA w2, folded w3_def]
  note s4 = step [of dataB w3, folded w4_def]
  have c3: "downloadAndSaveFont_finish e ?p (Some dataA) w2 =
      (if write_result e ?p dataA = WriteOk then Inr ?p else Inl WriteFailed, w3)"
    using s3 by (simp add: w3_def prod_eq_iff)
  have c4: "downloadAndSaveFont_finish e ?p (Some dataB) w3 =
      (if write_result e ?p dataB = WriteOk then Inr ?p else Inl WriteFailed, w4)"
    using s4 by (simp add: w4_def prod_eq_iff)
  have p3: "fs w3 ?p = written e ?p dataA None" using s3 f2 by simp
  have p4: "fs w4 ?p = written e ?p dataB (fs w3 ?p)" using s4 by simp
  have ok: "fs w4 ?p = Some (File dataB)" if "write_result e ?p dataB = WriteOk"
    using p4 that by (simp add: written_def)
  have bad: "\<forall>left. write_result e ?p dataB = WriteError (Some left) \<longrightarrow>
      fs w4 ?p = Some (File left)"
    using p4 by (simp add: written_def)
  have rq: "requests w4 = requests w @ [GetAsset urlA, GetAsset urlB]"
    using s3 s4 r1 r2 by simp
  have ops: "fs_ops w4 = fs_ops w @ (if fs w ?d = None then [MkdirSync ?d] else []) @
        [WriteFileSync ?p dataA, WriteFileSync ?p dataB]"
    using s3 s4 o1 o2 by simp
  have dir: "fs w4 ?d \<noteq> None" using s3 s4 f2 by simp
  have later: "downloadAndSaveFont e family weight urlA format w4 = (Inr ?p, w4)"
    if "fs w4 ?p \<noteq> None"
    using that dir by (rule downloadAndSaveFont_hit)
  from b1 b2 c3 c4 p3 p4 ok bad rq ops later show ?thesis by blast
qed

text \<open>
  Two instances, of two fills of weight 400 of Roboto that fetched different bytes: one
  on a file system that accepts every write, one on a file system where every write
  fails after the first byte.
\<close>

theorem overlapping_fills_witness:
  "(\<exists>w4. downloadAndSaveFont_finish example_env (js ''/cache/Roboto/Roboto-400.woff2'') (Some [2, 2])
      (snd (downloadAndSaveFont_finish example_env (js ''/cache/Roboto/Roboto-400.woff2'')
        (Some [1, 1])
        (snd (downloadAndSaveFont_begin example_env (js ''Roboto'') (Num 400) (js ''b'') Woff2
          (snd (downloadAndSaveFont_begin example_env (js ''Roboto'') (Num 400) (js ''a'') Woff2
             empty_world)))))) = (Inr (js ''/cache/Roboto/Roboto-400.woff2''), w4) \<and>
     fs w4 (js ''/cache/Roboto/Roboto-400.woff2'') = Some (File [2, 2]) \<and>
     fs_ops w4 = [MkdirSync (js ''/cache/Roboto''),
       WriteFileSync (js ''/cache/Roboto/Roboto-400.woff2'') [1, 1],
       WriteFileSync (js ''/cache/Roboto/Roboto-400.woff2'') [2, 2]]) \<and>
   (\<exists>w4. downloadAndSaveFont_finish truncating_env (js ''/cache/Roboto/Roboto-400.woff2'')
      (Some [2, 2])
      (snd (downloadAndSaveFont_finish truncating_env (js ''/cache/Roboto/Roboto-400.woff2'')
        (Some [1, 1])
        (snd (downloadAndSaveFont_begin truncating_env (js ''Roboto'') (Num 400) (js ''b'') Woff2
          (snd (downloadAndSaveFont_begin truncating_env (js ''Roboto'') (Num 400) (js ''a'') Woff2
             empty_world)))))) = (Inl WriteFailed, w4) \<and>
     fs w4 (js ''/cache/Roboto/Roboto-400.woff2'') = Some (File [2]) \<and>
     downloadAndSaveFont truncating_env (js ''Roboto'') (Num 400) (js ''a'') Woff2 w4 =
       (Inr (js ''/cache/Roboto/Roboto-400.woff2''), w4))"
proof -
  let ?p = "js ''/cache/Roboto/Roboto-400.woff2''"
  have p: "fontPath example_env (js ''Roboto'') (Num 400) Woff2 = ?p"
    "fontPath truncating_env (js ''Roboto'') (Num 400) Woff2 = ?p"
    by (simp_all add: truncating_env_def world_eval string_eval)
  have d: "fontDir example_env (js ''Roboto'') = js ''/cache/Roboto''"
    "fontDir truncating_env (js ''Roboto'') = js ''/cache/Roboto''"
    by (simp_all add: truncating_env_def world_eval string_eval)
  have 1: "fs empty_world (fontPath example_env (js ''Roboto'') (Num 400) Woff2) = None"
    "fs empty_world (fontPath truncating_env (js ''Roboto'') (Num 400) Woff2) = None"
    by (simp_all add: empty_world_def)
  have 2: "\<not> mkdir_fails example_env (fontDir example_env (js ''Roboto''))"
    "\<not> mkdir_fails truncating_env (fontDir truncating_env (js ''Roboto''))"
    by (simp_all add: truncating_env_def example_env_def)
  have 3: "fontPath example_env (js ''Roboto'') (Num 400) Woff2 \<noteq>
             fontDir example_env (js ''Roboto'')"
    "fontPath truncating_env (js ''Roboto'') (Num 400) Woff2 \<noteq>
             fontDir truncating_env (js ''Roboto'')"
    unfolding p d by (simp_all add: js_def)
  have ok: "write_result example_env ?p [1, 1] = WriteOk" "write_result example_env ?p [2, 2] = WriteOk"
    by (simp_all add: example_env_def)
  have tr: "write_result truncating_env ?p [1, 1] = WriteError (Some [1])"
    "write_result truncating_env ?p [2, 2] = WriteError (Some [2])"
    by (simp_all add: truncating_env_def)
  have e: "fs empty_world (js ''/cache/Roboto'') = None" "fs_ops empty_world = []"
    by (simp_all add: empty_world_def)
  from overlapping_fills [OF 1(1) 2(1) 3(1), of "js ''a''" "js ''b''" "[1, 1]" "[2, 2]"]
  have a: "\<exists>w4. downloadAndSaveFont_finish example_env ?p (Some [2, 2])
      (snd (downloadAndSaveFont_finish example_env ?p (Some [1, 1])
        (snd (downloadAndSaveFont_begin example_env (js ''Roboto'') (Num 400) (js ''b'') Woff2
          (snd (downloadAndSaveFont_begin example_env (js ''Roboto'') (Num 400) (js ''a'') Woff2
             empty_world)))))) = (Inr ?p, w4) \<and>
     fs w4 ?p = Some (File [2, 2]) \<and>
     fs_ops w4 = [MkdirSync (js ''/cache/Roboto''),
       WriteFileSync ?p [1, 1], WriteFileSync ?p [2, 2]]"
    unfolding p d by (auto simp: e ok)
  from overlapping_fills [OF 1(2) 2(2) 3(2), of "js ''a''" "js ''b''" "[1, 1]" "[2, 2]"]
  have b: "\<exists>w4. downloadAndSaveFont_finish truncating_env ?p (Some [2, 2])
      (snd (downloadAndSaveFont_finish truncating_env ?p (Some [1, 1])
        (snd (downloadAndSaveFont_begin truncating_env (js ''Roboto'') (Num 400) (js ''b'') Woff2
          (snd (downloadAndSaveFont_begin truncating_env (js ''Roboto'') (Num 400) (js ''a'') Woff2
             empty_world)))))) = (Inl WriteFailed, w4) \<and>
     fs w4 ?p = Some (File [2]) \<and>
     downloadAndSaveFont truncating_env (js ''Roboto'') (Num 400) (js ''a'') Woff2 w4 = (Inr ?p, w4)"
    unfolding p d by (auto simp: e tr)
  from a b show ?thesis by (rule conjI)
qed

text \<open>
  Claim C9 as stated fails: a fill of an empty cache makes the directory and writes the
  fetched bytes straight to the final path; there is no temporary location. And on the
  file system where the write fails after the first byte, the fill leaves a file of one
  byte at the final path, which the next retrieval returns as the cached file, without
  a request.
\<close>

theorem fill_writes_final_path:
  "fs_ops (snd (downloadAndSaveFont example_env (js ''Roboto'') (Num 400)
      (js ''https://fonts.gstatic.com/r.woff2'') Woff2 empty_world)) =
     [MkdirSync (js ''/cache/Roboto''),
      WriteFileSync (js ''/cache/Roboto/Roboto-400.woff2'') [119, 79, 70, 50]] \<and>
   fst (downloadAndSaveFont truncating_env (js ''Roboto'') (Num 400)
      (js ''https://fonts.gstatic.com/r.woff2'') Woff2 empty_world) = Inl WriteFailed \<and>
   fs (snd (downloadAndSaveFont truncating_env (js ''Roboto'') (Num 400)
      (js ''https://fonts.gstatic.com/r.woff2'') Woff2 empty_world))
     (js ''/cache/Roboto/Roboto-400.woff2'') = Some (File [119]) \<and>
   downloadAndSaveFont truncating_env (js ''Roboto'') (Num 400)
      (js ''https://fonts.gstatic.com/r.woff2'') Woff2
      (snd (downloadAndSaveFont truncating_env (js ''Roboto'') (Num 400)
         (js ''https://fonts.gstatic.com/r.woff2'') Woff2 empty_world)) =
     (Inr (js ''/cache/Roboto/Roboto-400.woff2''),
      snd (downloadAndSaveFont truncating_env (js ''Roboto'') (Num 400)
         (js ''https://fonts.gstatic.com/r.woff2'') Woff2 empty_world))"
  by (simp add: truncating_env_def world_eval string_eval)

section \<open>A name of whitespace only\<close>

text \<open>
  Claim C10. A name that is not empty but consists of whitespace only passes the check
  of line 175; trimming leaves the empty string, which splits into one empty word, and
  \<^verbatim>\<open>word[0].toUpperCase()\<close> throws a TypeError. The error middleware answers it with
  status 500 (a TypeError has no status) and the message of the TypeError, not with 400.
  (When the weights parameter is an array, its \<^verbatim>\<open>split\<close> has thrown a TypeError
  before, with the same answer.)
\<close>

theorem blank_name_status_500:
  assumes "validateFormat (q_format q) = Inr format"
    and "q_name q = Text name" and "name \<noteq> []" and "\<forall>c\<in>set name. isWhiteSpace c"
  shows "download_by_name e fontList now q w = (ErrorJson 500 None, w)"
  using assms
  by (cases "q_weights q") (simp_all add: download_by_name_def parseWeights_def normalizeName_blank)

text \<open>An instance: the name of two spaces.\<close>

theorem blank_name_status_500_witness:
  "download_by_name example_env [js ''Roboto''] 0 blank_query empty_world =
     (ErrorJson 500 None, empty_world)"
proof -
  have "validateFormat (q_format blank_query) = Inr Ttf"
    by (simp add: blank_query_def validateFormat_def js_def)
  moreover have "q_name blank_query = Text (js ''  '')" by (simp add: blank_query_def)
  moreover have "js ''  '' \<noteq> []" "\<forall>c\<in>set (js ''  ''). isWhiteSpace c"
    by (simp_all add: js_def isWhiteSpace_def)
  ultimately show ?thesis by (rule blank_name_status_500)
qed

end
